theory Spec2Isabelle
  imports Complex_Main "HOL-Library.Word" "HOL-Library.Log_Nat"
begin

section \<open>Strings\<close>

text \<open>
  Text that arrives in a JSON body (the destination URL, title, description, colours) is
  a JavaScript string: a sequence of UTF-16 code units, and \<^verbatim>\<open>.length\<close> counts code
  units. Header values and the request path are decoded by the HTTP parser one byte per
  character (Latin-1), so they are modelled as \<^typ>\<open>string\<close>, and so are the ASCII
  strings the program itself produces (short identifiers, plan names, messages).
\<close>

type_synonym jsstring = "16 word list"

definition str :: "string \<Rightarrow> jsstring" where
  "str s = map (\<lambda>c. of_nat (of_char c)) s"

text \<open>
  \<^verbatim>\<open>String.prototype.trim\<close> strips WhiteSpace and LineTerminator code points from
  both ends: TAB, LF, VT, FF, CR, SP, NBSP, U+1680, U+2000..U+200A, U+2028, U+2029,
  U+202F, U+205F, U+3000 and U+FEFF.
\<close>

definition isWhiteSpace :: "16 word \<Rightarrow> bool" where
  "isWhiteSpace c =
     (c = 9 \<or> c = 10 \<or> c = 11 \<or> c = 12 \<or> c = 13 \<or> c = 32 \<or> c = 160 \<or> c = 5760
      \<or> (8192 \<le> c \<and> c \<le> 8202) \<or> c = 8232 \<or> c = 8233 \<or> c = 8239 \<or> c = 8287
      \<or> c = 12288 \<or> c = 65279)"

definition trim :: "jsstring \<Rightarrow> jsstring" where
  "trim s = rev (dropWhile isWhiteSpace (rev (dropWhile isWhiteSpace s)))"

text \<open>
  Matching with the \<^verbatim>\<open>i\<close> flag (and no \<^verbatim>\<open>u\<close> flag) compares canonicalised code units;
  a code unit outside ASCII never canonicalises to an ASCII letter, so for an ASCII
  pattern only the ASCII letters fold.
\<close>

definition foldCase :: "16 word \<Rightarrow> 16 word" where
  "foldCase c = (if 65 \<le> c \<and> c \<le> 90 then c + 32 else c)"

text \<open>The test \<^verbatim>\<open>/^https?:\/\//i.test(url)\<close>.\<close>

definition hasProtocol :: "jsstring \<Rightarrow> bool" where
  "hasProtocol u =
     (map foldCase (take 7 u) = str ''http://'' \<or> map foldCase (take 8 u) = str ''https://'')"

section \<open>URL sanitising and validation\<close>

text \<open>\<^verbatim>\<open>sanitizeUrl\<close> of \<^verbatim>\<open>utils/qrGenerator.ts\<close> and of the plain servers.\<close>

definition sanitizeUrl :: "jsstring \<Rightarrow> jsstring" where
  "sanitizeUrl url0 =
     (let url1 = trim url0
      in if \<not> hasProtocol url1 then str ''https://'' @ url1 else url1)"

text \<open>
  The result of \<^verbatim>\<open>new URL(url)\<close>: the WHATWG parser is a library, taken as a parameter;
  \<open>None\<close> stands for the \<^verbatim>\<open>TypeError\<close> it throws. Only the protocol is read.
\<close>

record parsedURL =
  protocol :: string

type_synonym url_parser = "jsstring \<Rightarrow> parsedURL option"

text \<open>\<^verbatim>\<open>validateUrl\<close> of \<^verbatim>\<open>utils/qrGenerator.ts\<close>: parses and checks the protocol.\<close>

definition validateUrl :: "url_parser \<Rightarrow> jsstring \<Rightarrow> bool" where
  "validateUrl newURL u =
     (case newURL u of
        None \<Rightarrow> False
      | Some parsedUrl \<Rightarrow> protocol parsedUrl \<in> set [''http:'', ''https:''])"

text \<open>\<^verbatim>\<open>validateUrl\<close> of the servers: parses only.\<close>

definition validateUrl_server :: "url_parser \<Rightarrow> jsstring \<Rightarrow> bool" where
  "validateUrl_server newURL u = (case newURL u of None \<Rightarrow> False | Some _ \<Rightarrow> True)"

datatype error = InvalidURLProvided

text \<open>
  \<^verbatim>\<open>sanitizeUrl\<close> of the database-backed server. It throws on an empty string; after
  the protocol test each of its four remaining branches (three further patterns and the
  last resort) returns \<^verbatim>\<open>'https://' + urlString\<close>, so they are one branch here.
\<close>

definition sanitizeUrl_db :: "jsstring \<Rightarrow> error + jsstring" where
  "sanitizeUrl_db urlString0 =
     (if urlString0 = [] then Inl InvalidURLProvided
      else let urlString = trim urlString0
           in if hasProtocol urlString then Inr urlString
              else Inr (str ''https://'' @ urlString))"

section \<open>Accounts: plans, limits and usage\<close>

text \<open>
  The account document of \<^verbatim>\<open>models/User.ts\<close> and \<^verbatim>\<open>models-production/User.js\<close>,
  without the password and the subscription, which no handler below reads.
  JavaScript numbers that only ever hold integers are modelled as \<open>int\<close>; dates are
  milliseconds since the epoch.
\<close>

record limits =
  maxQRCodes :: int
  maxScansPerMonth :: int
  canCustomize :: bool
  canTrackAnalytics :: bool
  canExportData :: bool

record usage =
  qrCodesCreated :: int
  monthlyScans :: int
  lastResetDate :: int

record user =
  user_id :: nat
  email :: string
  name :: string
  plan :: string
  limits :: limits
  usage :: usage

text \<open>
  The second \<^verbatim>\<open>pre('save')\<close> hook of the user schema. \<^verbatim>\<open>this.isModified('plan')\<close> is
  the change tracking of the document library; its answer is the first argument.
  The \<^verbatim>\<open>switch\<close> has no default branch: any other plan string leaves the limits alone.
\<close>

definition preSave_limits :: "bool \<Rightarrow> user \<Rightarrow> user" where
  "preSave_limits planModified this =
     (if planModified then
        (if plan this = ''free'' then
           this\<lparr>limits := \<lparr>maxQRCodes = 5, maxScansPerMonth = 100,
             canCustomize = False, canTrackAnalytics = False, canExportData = False\<rparr>\<rparr>
         else if plan this = ''pro'' then
           this\<lparr>limits := \<lparr>maxQRCodes = 100, maxScansPerMonth = 10000,
             canCustomize = True, canTrackAnalytics = True, canExportData = True\<rparr>\<rparr>
         else if plan this = ''enterprise'' then
           this\<lparr>limits := \<lparr>maxQRCodes = - 1, maxScansPerMonth = - 1,
             canCustomize = True, canTrackAnalytics = True, canExportData = True\<rparr>\<rparr>
         else this)
      else this)"

section \<open>The QR code document and its collection\<close>

text \<open>
  The document of \<^verbatim>\<open>models-production/QRCode.js\<close>. \<open>oid\<close> is the \<^verbatim>\<open>_id\<close> of the
  document and \<open>size_px\<close> its \<^verbatim>\<open>customization.size\<close>. No handler ever fills in
  the location of a scan.
\<close>

record location =
  country :: "string option"
  city :: "string option"

record scan =
  timestamp :: int
  userAgent :: "string option"
  ipAddress :: "string option"
  location :: "location option"

record analytics =
  totalScans :: int
  lastScanned :: "int option"
  scanHistory :: "scan list"

record customization =
  size_px :: int
  errorCorrectionLevel :: jsstring
  foregroundColor :: jsstring
  backgroundColor :: jsstring

record qrcode =
  oid :: nat
  userId :: "nat option"
  url :: jsstring
  shortId :: string
  qrCodeData :: string
  title :: jsstring
  description :: jsstring
  customization :: customization
  analytics :: analytics
  isActive :: bool
  isPremium :: bool

text \<open>The schema's validators. \<^verbatim>\<open>/^https?:\/\/.+/\<close> is case sensitive, and \<^verbatim>\<open>.\<close>
  matches anything but a line terminator.\<close>

definition isLineTerminator :: "16 word \<Rightarrow> bool" where
  "isLineTerminator c = (c = 10 \<or> c = 13 \<or> c = 8232 \<or> c = 8233)"

definition url_validator :: "jsstring \<Rightarrow> bool" where
  "url_validator v =
     ((take 7 v = str ''http://'' \<and>
         (case drop 7 v of [] \<Rightarrow> False | c # _ \<Rightarrow> \<not> isLineTerminator c))
      \<or> (take 8 v = str ''https://'' \<and>
         (case drop 8 v of [] \<Rightarrow> False | c # _ \<Rightarrow> \<not> isLineTerminator c)))"

definition isHexDigit :: "16 word \<Rightarrow> bool" where
  "isHexDigit c = ((48 \<le> c \<and> c \<le> 57) \<or> (65 \<le> c \<and> c \<le> 70) \<or> (97 \<le> c \<and> c \<le> 102))"

text \<open>\<^verbatim>\<open>/^#[0-9A-F]{6}$/i\<close>\<close>

definition color_validator :: "jsstring \<Rightarrow> bool" where
  "color_validator v =
     (case v of [] \<Rightarrow> False | c # ds \<Rightarrow> c = 35 \<and> length ds = 6 \<and> list_all isHexDigit ds)"

definition customization_valid :: "customization \<Rightarrow> bool" where
  "customization_valid c =
     (128 \<le> size_px c \<and> size_px c \<le> 1024
      \<and> errorCorrectionLevel c \<in> set [str ''L'', str ''M'', str ''Q'', str ''H'']
      \<and> color_validator (foregroundColor c) \<and> color_validator (backgroundColor c))"

definition QRCodeSchema_valid :: "qrcode \<Rightarrow> bool" where
  "QRCodeSchema_valid q =
     (url_validator (url q) \<and> shortId q \<noteq> [] \<and> qrCodeData q \<noteq> []
      \<and> length (title q) \<le> 100 \<and> length (description q) \<le> 500
      \<and> customization_valid (customization q))"

text \<open>
  The collection is the list of its documents in insertion order. \<^verbatim>\<open>findOne\<close> returns
  the first document that matches the filter, \<^verbatim>\<open>countDocuments\<close> counts the matches.
\<close>

definition findOne :: "(qrcode \<Rightarrow> bool) \<Rightarrow> qrcode list \<Rightarrow> qrcode option" where
  "findOne filter0 docs = List.find filter0 docs"

definition countDocuments :: "(qrcode \<Rightarrow> bool) \<Rightarrow> qrcode list \<Rightarrow> nat" where
  "countDocuments filter0 docs = length (filter filter0 docs)"

text \<open>
  The three query documents the handlers use: \<^verbatim>\<open>{ userId }\<close>,
  \<^verbatim>\<open>{ _id, userId }\<close> and \<^verbatim>\<open>{ shortId, isActive: true }\<close>.
\<close>

definition byOwner :: "nat \<Rightarrow> qrcode \<Rightarrow> bool" where
  "byOwner uid q = (userId q = Some uid)"

definition byIdAndOwner :: "nat \<Rightarrow> nat \<Rightarrow> qrcode \<Rightarrow> bool" where
  "byIdAndOwner qrId uid q = (oid q = qrId \<and> userId q = Some uid)"

definition byShortIdActive :: "string \<Rightarrow> qrcode \<Rightarrow> bool" where
  "byShortIdActive sid q = (shortId q = sid \<and> isActive q = True)"

text \<open>
  \<^verbatim>\<open>save()\<close> of a new document: validation, then the insert, which the unique indexes
  on \<^verbatim>\<open>_id\<close> and \<^verbatim>\<open>shortId\<close> refuse on a duplicate. \<open>None\<close> is the thrown error.
\<close>

definition save_new :: "qrcode \<Rightarrow> qrcode list \<Rightarrow> qrcode list option" where
  "save_new q docs =
     (if QRCodeSchema_valid q \<and> shortId q \<notin> set (map shortId docs) \<and> oid q \<notin> set (map oid docs)
      then Some (docs @ [q]) else None)"

text \<open>\<^verbatim>\<open>save()\<close> of a document that was loaded from the collection: an update by \<^verbatim>\<open>_id\<close>.\<close>

definition save_loaded :: "qrcode \<Rightarrow> qrcode list \<Rightarrow> qrcode list" where
  "save_loaded q docs = map (\<lambda>d. if oid d = oid q then q else d) docs"

fun findByIdAndDelete :: "nat \<Rightarrow> qrcode list \<Rightarrow> qrcode list" where
  "findByIdAndDelete i [] = []"
| "findByIdAndDelete i (d # ds) = (if oid d = i then ds else d # findByIdAndDelete i ds)"

section \<open>Responses\<close>

datatype response =
    Created qrcode
  | Updated qrcode
  | Deleted
  | Redirect jsstring
  | BadRequest string
  | Unauthorized string
  | PlanLimitReached int string
  | NotFound string
  | NotFoundPage
  | InternalServerError

text \<open>
  \<^verbatim>\<open>res.writeHead(302, { 'Location': url })\<close>. The HTTP library refuses a header value
  that holds a character other than TAB, U+0020..U+007E and U+0080..U+00FF: it throws,
  the handler's \<^verbatim>\<open>catch\<close> takes over, and the answer is the 500 response. Nothing that
  was saved before is undone.
\<close>

definition checkInvalidHeaderChar :: "jsstring \<Rightarrow> bool" where
  "checkInvalidHeaderChar v =
     list_ex (\<lambda>c. \<not> (c = 9 \<or> (32 \<le> c \<and> c \<le> 126) \<or> (128 \<le> c \<and> c \<le> 255))) v"

definition writeHead_302 :: "jsstring \<Rightarrow> response" where
  "writeHead_302 location0 =
     (if checkInvalidHeaderChar location0 then InternalServerError else Redirect location0)"

section \<open>Creating a QR code\<close>

text \<open>
  \<^verbatim>\<open>POST /api/qr/generate\<close> of the database-backed server. The request body after
  destructuring; an absent field is \<open>None\<close>.
\<close>

record generate_body =
  body_url :: "jsstring option"
  body_title :: "jsstring option"
  body_description :: "jsstring option"
  body_size :: "int option"
  body_errorCorrectionLevel :: "jsstring option"
  body_foregroundColor :: "jsstring option"
  body_backgroundColor :: "jsstring option"

text \<open>
  What the environment hands to one request: the identifier drawn by
  \<^verbatim>\<open>generateShortId()\<close>, the fresh \<^verbatim>\<open>_id\<close>, and the image \<^verbatim>\<open>QRCode.toDataURL\<close>
  returned (\<open>None\<close> when it threw).
\<close>

record generated =
  new_shortId :: string
  new_oid :: nat
  new_dataURL :: "string option"

text \<open>A destructuring default \<^verbatim>\<open>x = d\<close>, and \<^verbatim>\<open>x || d\<close> on an optional string.\<close>

definition withDefault :: "'a option \<Rightarrow> 'a \<Rightarrow> 'a" where
  "withDefault x d = (case x of None \<Rightarrow> d | Some v \<Rightarrow> v)"

definition orElse :: "jsstring option \<Rightarrow> jsstring \<Rightarrow> jsstring" where
  "orElse x d = (case x of None \<Rightarrow> d | Some v \<Rightarrow> if v = [] then d else v)"

text \<open>\<^verbatim>\<open>userQRCodes >= currentUser.limits.maxQRCodes\<close>\<close>

definition planLimitReached :: "user \<Rightarrow> qrcode list \<Rightarrow> bool" where
  "planLimitReached currentUser docs =
     (maxQRCodes (limits currentUser)
        \<le> int (countDocuments (byOwner (user_id currentUser)) docs))"

text \<open>The plan check runs for a signed-in account only; its refusal is the 403 response.\<close>

definition checkPlanLimit :: "user option \<Rightarrow> qrcode list \<Rightarrow> response option" where
  "checkPlanLimit currentUser docs =
     (case currentUser of
        None \<Rightarrow> None
      | Some u \<Rightarrow>
          if planLimitReached u docs
          then Some (PlanLimitReached (maxQRCodes (limits u)) (plan u))
          else None)"

text \<open>
  \<^verbatim>\<open>currentUser?.plan !== 'free' || false\<close>: the optional chain gives \<^verbatim>\<open>undefined\<close>
  (here \<open>None\<close>) when nobody is signed in.
\<close>

definition isPremium_of :: "user option \<Rightarrow> bool" where
  "isPremium_of currentUser = (map_option plan currentUser \<noteq> Some ''free'' \<or> False)"

definition newQRCode :: "generated \<Rightarrow> user option \<Rightarrow> generate_body \<Rightarrow> jsstring \<Rightarrow> string \<Rightarrow> qrcode" where
  "newQRCode env currentUser body sanitizedUrl dataURL =
     \<lparr>oid = new_oid env,
      userId = map_option user_id currentUser,
      url = sanitizedUrl,
      shortId = new_shortId env,
      qrCodeData = dataURL,
      title = orElse (body_title body) (str ''Untitled QR Code''),
      description = orElse (body_description body) [],
      customization =
        \<lparr>size_px = withDefault (body_size body) 256,
         errorCorrectionLevel = withDefault (body_errorCorrectionLevel body) (str ''M''),
         foregroundColor = withDefault (body_foregroundColor body) (str ''#000000''),
         backgroundColor = withDefault (body_backgroundColor body) (str ''#FFFFFF'')\<rparr>,
      analytics = \<lparr>totalScans = 0, lastScanned = None, scanHistory = []\<rparr>,
      isActive = True,
      isPremium = isPremium_of currentUser\<rparr>"

definition incrementCreated :: "user \<Rightarrow> user" where
  "incrementCreated u = u\<lparr>usage := (usage u)\<lparr>qrCodesCreated := qrCodesCreated (usage u) + 1\<rparr>\<rparr>"

text \<open>The handler: the response, the collection and the signed-in account afterwards.\<close>

definition generate ::
  "url_parser \<Rightarrow> generated \<Rightarrow> user option \<Rightarrow> generate_body \<Rightarrow> qrcode list
     \<Rightarrow> response \<times> qrcode list \<times> user option" where
  "generate newURL env currentUser body docs =
     (case body_url body of
        None \<Rightarrow> (BadRequest ''URL is required'', docs, currentUser)
      | Some inputUrl \<Rightarrow>
          if inputUrl = [] then (BadRequest ''URL is required'', docs, currentUser)
          else
            (case sanitizeUrl_db inputUrl of
               Inl _ \<Rightarrow> (InternalServerError, docs, currentUser)
             | Inr sanitizedUrl \<Rightarrow>
                 if \<not> validateUrl_server newURL sanitizedUrl
                 then (BadRequest ''Invalid URL format'', docs, currentUser)
                 else
                   (case checkPlanLimit currentUser docs of
                      Some denied \<Rightarrow> (denied, docs, currentUser)
                    | None \<Rightarrow>
                        (case new_dataURL env of
                           None \<Rightarrow> (InternalServerError, docs, currentUser)
                         | Some dataURL \<Rightarrow>
                             (let qrCode = newQRCode env currentUser body sanitizedUrl dataURL
                              in case save_new qrCode docs of
                                   None \<Rightarrow> (InternalServerError, docs, currentUser)
                                 | Some docs' \<Rightarrow>
                                     (Created qrCode, docs',
                                      map_option incrementCreated currentUser))))))"

section \<open>Updating and deleting a QR code\<close>

record update_body =
  upd_title :: "jsstring option"
  upd_description :: "jsstring option"
  upd_isActive :: "bool option"

definition applyUpdate :: "update_body \<Rightarrow> qrcode \<Rightarrow> qrcode" where
  "applyUpdate body qrCode =
     (let q1 = (case upd_title body of None \<Rightarrow> qrCode | Some t \<Rightarrow> qrCode\<lparr>title := t\<rparr>);
          q2 = (case upd_description body of None \<Rightarrow> q1 | Some d \<Rightarrow> q1\<lparr>description := d\<rparr>);
          q3 = (case upd_isActive body of None \<Rightarrow> q2 | Some a \<Rightarrow> q2\<lparr>isActive := a\<rparr>)
      in q3)"

text \<open>
  \<^verbatim>\<open>PUT /api/qr/:id\<close>. The id of the path is an object id (how the document library
  treats a path segment that is not one is not part of this model). The save validates
  the lengths of title and description.
\<close>

definition updateQR ::
  "user option \<Rightarrow> nat \<Rightarrow> update_body \<Rightarrow> qrcode list \<Rightarrow> response \<times> qrcode list" where
  "updateQR currentUser qrId body docs =
     (case currentUser of
        None \<Rightarrow> (Unauthorized ''Authentication required'', docs)
      | Some user \<Rightarrow>
          (case findOne (byIdAndOwner qrId (user_id user)) docs of
             None \<Rightarrow> (NotFound ''QR code not found'', docs)
           | Some qrCode \<Rightarrow>
               (let q = applyUpdate body qrCode
                in if length (title q) \<le> 100 \<and> length (description q) \<le> 500
                   then (Updated q, save_loaded q docs)
                   else (InternalServerError, docs))))"

definition decrementCreated :: "user \<Rightarrow> user" where
  "decrementCreated u =
     (if 0 < qrCodesCreated (usage u)
      then u\<lparr>usage := (usage u)\<lparr>qrCodesCreated := qrCodesCreated (usage u) - 1\<rparr>\<rparr>
      else u)"

text \<open>\<^verbatim>\<open>DELETE /api/qr/:id\<close>\<close>

definition deleteQR ::
  "user option \<Rightarrow> nat \<Rightarrow> qrcode list \<Rightarrow> response \<times> qrcode list \<times> user option" where
  "deleteQR currentUser qrId docs =
     (case currentUser of
        None \<Rightarrow> (Unauthorized ''Authentication required'', docs, currentUser)
      | Some user \<Rightarrow>
          (case findOne (byIdAndOwner qrId (user_id user)) docs of
             None \<Rightarrow> (NotFound ''QR code not found'', docs, currentUser)
           | Some qrCode \<Rightarrow>
               (Deleted, findByIdAndDelete qrId docs, Some (decrementCreated user))))"

section \<open>Resolving a short identifier\<close>

text \<open>
  \<^verbatim>\<open>GET /r/:shortId\<close> of the database-backed server. A request carries the
  identifier, the two headers read, and the two readings of the clock the handler takes
  (\<^verbatim>\<open>new Date()\<close> for the scan, then again for \<^verbatim>\<open>lastScanned\<close>). The scan is saved
  before the redirect is written, so it is recorded also when writing the
  \<^verbatim>\<open>Location\<close> header fails.
\<close>

record scan_request =
  req_shortId :: string
  req_userAgent :: "string option"
  req_remoteAddress :: "string option"
  req_now :: int
  req_now2 :: int

text \<open>\<^verbatim>\<open>xs.slice(-n)\<close>: the last \<open>n\<close> elements, all of them when there are fewer.\<close>

definition slice_last :: "nat \<Rightarrow> 'a list \<Rightarrow> 'a list" where
  "slice_last n xs = drop (length xs - n) xs"

definition scanData :: "scan_request \<Rightarrow> scan" where
  "scanData req =
     \<lparr>timestamp = req_now req, userAgent = req_userAgent req,
      ipAddress = req_remoteAddress req, location = None\<rparr>"

definition trackScan :: "scan_request \<Rightarrow> analytics \<Rightarrow> analytics" where
  "trackScan req a =
     (let a1 = a\<lparr>totalScans := totalScans a + 1\<rparr>;
          a2 = a1\<lparr>lastScanned := Some (req_now2 req)\<rparr>;
          a3 = a2\<lparr>scanHistory := scanHistory a2 @ [scanData req]\<rparr>
      in if 1000 < length (scanHistory a3)
         then a3\<lparr>scanHistory := slice_last 1000 (scanHistory a3)\<rparr>
         else a3)"

definition redirect :: "scan_request \<Rightarrow> qrcode list \<Rightarrow> response \<times> qrcode list" where
  "redirect req docs =
     (case findOne (byShortIdActive (req_shortId req)) docs of
        None \<Rightarrow> (NotFoundPage, docs)
      | Some qrCode \<Rightarrow>
          (let qrCode' = qrCode\<lparr>analytics := trackScan req (analytics qrCode)\<rparr>
           in (writeHead_302 (url qrCode'), save_loaded qrCode' docs)))"

text \<open>The document a request leaves behind when it found \<open>q\<close>.\<close>

definition scanned :: "scan_request \<Rightarrow> qrcode \<Rightarrow> qrcode" where
  "scanned req q = q\<lparr>analytics := trackScan req (analytics q)\<rparr>"

text \<open>A sequence of requests, one after the other: the responses and the final collection.\<close>

fun redirects :: "scan_request list \<Rightarrow> qrcode list \<Rightarrow> response list \<times> qrcode list" where
  "redirects [] docs = ([], docs)"
| "redirects (req # reqs) docs =
     (case redirect req docs of
        (r, docs') \<Rightarrow> (case redirects reqs docs' of (rs, docs'') \<Rightarrow> (r # rs, docs'')))"

section \<open>Analytics\<close>

text \<open>
  A JavaScript \<^verbatim>\<open>Map\<close> keeps its keys in insertion order, and setting a key that is
  present keeps its place: an association list.
\<close>

fun map_get :: "('k \<times> 'v) list \<Rightarrow> 'k \<Rightarrow> 'v option" where
  "map_get [] k = None"
| "map_get ((k', v) # m) k = (if k' = k then Some v else map_get m k)"

fun map_set :: "('k \<times> 'v) list \<Rightarrow> 'k \<Rightarrow> 'v \<Rightarrow> ('k \<times> 'v) list" where
  "map_set [] k v = [(k, v)]"
| "map_set ((k', v') # m) k v = (if k' = k then (k', v) # m else (k', v') # map_set m k v)"

text \<open>\<^verbatim>\<open>m.set(k, (m.get(k) || 0) + 1)\<close>\<close>

definition increment :: "('k \<times> nat) list \<Rightarrow> 'k \<Rightarrow> ('k \<times> nat) list" where
  "increment m k =
     map_set m k ((case map_get m k of None \<Rightarrow> 0 | Some n \<Rightarrow> if n = 0 then 0 else n) + 1)"

subsection \<open>Daily scans\<close>

text \<open>
  \<^verbatim>\<open>getDailyScans\<close>. The clock is read once, as \<open>now\<close>, and the server's time zone is
  UTC, so that \<^verbatim>\<open>setDate(getDate() - i)\<close> goes back \<open>i\<close> days of 24 hours. The key
  \<^verbatim>\<open>toISOString().split('T')[0]\<close> is the UTC calendar date; it is represented by the
  number of that day since 1970-01-01, which orders the dates as \<^verbatim>\<open>localeCompare\<close>
  orders their ISO strings.
\<close>

definition DAY_MS :: int where
  "DAY_MS = 24 * 60 * 60 * 1000"

definition isoDate :: "int \<Rightarrow> int" where
  "isoDate t = t div DAY_MS"

definition daysBefore :: "int \<Rightarrow> nat \<Rightarrow> int" where
  "daysBefore t i = t - int i * DAY_MS"

record daily =
  date :: int
  scans :: nat

definition getDailyScans :: "int \<Rightarrow> scan list \<Rightarrow> daily list" where
  "getDailyScans now scanHistory0 =
     (let thirtyDaysAgo = daysBefore now 30;
          dailyMap0 = foldl (\<lambda>m i. map_set m (isoDate (daysBefore now i)) 0) [] [0..<30];
          dailyMap = foldl (\<lambda>m scan. increment m (isoDate (timestamp scan))) dailyMap0
                       (filter (\<lambda>scan. thirtyDaysAgo \<le> timestamp scan) scanHistory0)
      in sort_key date (map (\<lambda>(d, n). \<lparr>date = d, scans = n\<rparr>) dailyMap))"

subsection \<open>Device statistics\<close>

text \<open>
  \<^verbatim>\<open>toLowerCase\<close> on a Latin-1 string: the ASCII capitals and the capitals
  U+00C0..U+00DE (but not the multiplication sign U+00D7) move up by 32.
\<close>

definition toLowerCase_char :: "char \<Rightarrow> char" where
  "toLowerCase_char c =
     (let n = (of_char c :: nat)
      in if (65 \<le> n \<and> n \<le> 90) \<or> (192 \<le> n \<and> n \<le> 222 \<and> n \<noteq> 215)
         then char_of (n + 32) else c)"

definition toLowerCase :: "string \<Rightarrow> string" where
  "toLowerCase s = map toLowerCase_char s"

fun includes_str :: "string \<Rightarrow> string \<Rightarrow> bool" where
  "includes_str [] sub = (sub = [])"
| "includes_str (c # cs) sub = (take (length sub) (c # cs) = sub \<or> includes_str cs sub)"

definition deviceOf :: "string \<Rightarrow> string" where
  "deviceOf userAgent0 =
     (let ua = toLowerCase userAgent0
      in if includes_str ua ''mobile'' \<or> includes_str ua ''android'' \<or> includes_str ua ''iphone''
         then ''Mobile''
         else if includes_str ua ''tablet'' \<or> includes_str ua ''ipad'' then ''Tablet''
         else if includes_str ua ''bot'' \<or> includes_str ua ''crawler'' then ''Bot''
         else ''Desktop'')"

text \<open>
  JavaScript numbers are IEEE 754 binary64 values, and \<^verbatim>\<open>/\<close> and \<^verbatim>\<open>*\<close> return the
  exact result rounded to the nearest such value, a tie going to the even significand.
  A finite value is a rational; \<open>binade x\<close> is the exponent \<open>e\<close> with
  \<open>2^e \<le> x < 2^(e+1)\<close>, the values at that exponent are the multiples of \<open>2^(e-52)\<close>,
  and below \<open>2^(-1022)\<close> the spacing stays \<open>2^(-1074)\<close>. Overflow is not modelled: the
  numbers below are counts (integers far below \<open>2^53\<close>, which are exact), their
  quotients and \<open>100\<close> times those.
\<close>

definition binade :: "rat \<Rightarrow> int" where
  "binade x =
     (let (p, q) = quotient_of x; d = bitlen p - bitlen q
      in if 2 powi d \<le> x then d else d - 1)"

definition roundTiesToEven :: "rat \<Rightarrow> int" where
  "roundTiesToEven m =
     (let f = \<lfloor>m\<rfloor>; r = m - of_int f
      in if r < 1 / 2 then f else if 1 / 2 < r then f + 1 else if even f then f else f + 1)"

definition binary64 :: "rat \<Rightarrow> rat" where
  "binary64 x =
     (if x = 0 then 0
      else let a = \<bar>x\<bar>; ulp = 2 powi (max (binade a) (- 1022) - 52)
           in sgn x * of_int (roundTiesToEven (a / ulp)) * ulp)"

definition double_div :: "rat \<Rightarrow> rat \<Rightarrow> rat" where
  "double_div a b = binary64 (a / b)"

definition double_mul :: "rat \<Rightarrow> rat \<Rightarrow> rat" where
  "double_mul a b = binary64 (a * b)"

text \<open>
  \<^verbatim>\<open>Math.round\<close> returns the integer nearest to its argument, the upper one of two that
  are equally near; it is exact on the value it is given.
\<close>

definition Math_round :: "rat \<Rightarrow> int" where
  "Math_round x = \<lfloor>x + 1 / 2\<rfloor>"

record device_stat =
  device :: string
  count :: nat
  percentage :: int

text \<open>The loop of \<^verbatim>\<open>getDeviceStats\<close>: a scan whose user agent is absent or empty is skipped.\<close>

definition deviceMap_of :: "scan list \<Rightarrow> (string \<times> nat) list" where
  "deviceMap_of scanHistory0 =
     foldl (\<lambda>m scan. case userAgent scan of
                        None \<Rightarrow> m
                      | Some ua \<Rightarrow> if ua = [] then m else increment m (deviceOf ua))
       [] scanHistory0"

definition getDeviceStats :: "scan list \<Rightarrow> device_stat list" where
  "getDeviceStats scanHistory0 =
     (let total = length scanHistory0
      in sort_key (\<lambda>e. - int (count e))
           (map (\<lambda>(d, c). \<lparr>device = d, count = c,
                   percentage =
                     (if 0 < total
                      then Math_round (double_mul (double_div (of_nat c) (of_nat total)) 100)
                      else 0)\<rparr>)
              (deviceMap_of scanHistory0)))"

text \<open>
  The device classes of the scans that carry a user agent, in the order of the history:
  what the loop of \<open>deviceMap_of\<close> counts.
\<close>

definition devices_of :: "scan list \<Rightarrow> string list" where
  "devices_of scanHistory0 =
     concat (map (\<lambda>scan. case userAgent scan of
                            None \<Rightarrow> []
                          | Some ua \<Rightarrow> if ua = [] then [] else [deviceOf ua])
               scanHistory0)"

text \<open>
  The breakdown as the specification words it: the denominator of a percentage is the
  number of classified scans, those with a user agent.
\<close>

definition deviceBreakdown_spec :: "scan list \<Rightarrow> device_stat list" where
  "deviceBreakdown_spec history =
     (let classified = devices_of history;
          total_classified = length classified
      in sort_key (\<lambda>e. - int (count e))
           (map (\<lambda>(d, c). \<lparr>device = d, count = c,
                   percentage =
                     Math_round
                       (double_mul (double_div (of_nat c) (of_nat total_classified)) 100)\<rparr>)
              (foldl increment [] classified)))"

text \<open>How often a key was counted.\<close>

definition tally :: "('k \<times> nat) list \<Rightarrow> 'k \<Rightarrow> nat" where
  "tally m k = (case map_get m k of None \<Rightarrow> 0 | Some n \<Rightarrow> n)"

section \<open>The in-memory prototype\<close>

text \<open>
  The prototype server keeps its links in a \<^verbatim>\<open>Map\<close> from short identifier to a plain
  object. Of that object, the fields its redirect reads or writes, and \<^verbatim>\<open>isActive\<close>.
\<close>

record proto_qrcode =
  proto_userId :: "nat option"
  proto_originalUrl :: jsstring
  proto_isActive :: bool
  proto_totalScans :: int
  proto_lastScanned :: "int option"

type_synonym proto_store = "(string \<times> proto_qrcode) list"

text \<open>
  What the prototype's \<^verbatim>\<open>POST /api/qr/generate\<close> does to the map of links: after the
  same checks as above (with the plain \<open>sanitizeUrl\<close>, and counting the owner's links in
  the map) it sets the new identifier to an object with \<^verbatim>\<open>isActive: true\<close>.
\<close>

definition proto_generate ::
  "url_parser \<Rightarrow> string \<Rightarrow> string option \<Rightarrow> user option \<Rightarrow> generate_body \<Rightarrow> proto_store
     \<Rightarrow> proto_store" where
  "proto_generate newURL shortId0 dataURL currentUser body qrCodes =
     (case body_url body of
        None \<Rightarrow> qrCodes
      | Some inputUrl \<Rightarrow>
          if inputUrl = [] then qrCodes
          else
            (let sanitizedUrl = sanitizeUrl inputUrl
             in if \<not> validateUrl_server newURL sanitizedUrl then qrCodes
                else if (case currentUser of
                           None \<Rightarrow> False
                         | Some u \<Rightarrow>
                             maxQRCodes (limits u)
                               \<le> int (length (filter (\<lambda>(k, qr). proto_userId qr = Some (user_id u))
                                                 qrCodes)))
                then qrCodes
                else
                  (case dataURL of
                     None \<Rightarrow> qrCodes
                   | Some _ \<Rightarrow>
                       map_set qrCodes shortId0
                         \<lparr>proto_userId = map_option user_id currentUser,
                          proto_originalUrl = sanitizedUrl,
                          proto_isActive = True,
                          proto_totalScans = 0,
                          proto_lastScanned = None\<rparr>)))"

text \<open>The prototype's \<^verbatim>\<open>GET /r/:shortId\<close>: a lookup by key, with no test of \<^verbatim>\<open>isActive\<close>.\<close>

definition proto_redirect :: "int \<Rightarrow> string \<Rightarrow> proto_store \<Rightarrow> response \<times> proto_store" where
  "proto_redirect now shortId0 qrCodes =
     (case map_get qrCodes shortId0 of
        None \<Rightarrow> (NotFoundPage, qrCodes)
      | Some qrCode \<Rightarrow>
          (let qrCode' = qrCode\<lparr>proto_totalScans := proto_totalScans qrCode + 1,
                                 proto_lastScanned := Some now\<rparr>
           in (writeHead_302 (proto_originalUrl qrCode'), map_set qrCodes shortId0 qrCode')))"

text \<open>The maps the prototype can be in: no other handler writes to the map.\<close>

inductive proto_reachable :: "proto_store \<Rightarrow> bool" where
  start: "proto_reachable []"
| generated: "proto_reachable s \<Longrightarrow>
     proto_reachable (proto_generate newURL sid dataURL currentUser body s)"
| redirected: "proto_reachable s \<Longrightarrow> proto_reachable (snd (proto_redirect now sid s))"

section \<open>Sequences of requests of one account\<close>

text \<open>
  The requests of one signed-in account that touch its usage counter, run one after the
  other: each loads the account, and saves it when it changed it.
\<close>

datatype account_op = CreateOp generated generate_body | DeleteOp nat

fun applyOp :: "url_parser \<Rightarrow> account_op \<Rightarrow> qrcode list \<times> user \<Rightarrow> qrcode list \<times> user" where
  "applyOp newURL (CreateOp env body) (docs, u) =
     (case generate newURL env (Some u) body docs of
        (r, docs', Some u') \<Rightarrow> (docs', u')
      | (r, docs', None) \<Rightarrow> (docs', u))"
| "applyOp newURL (DeleteOp qrId) (docs, u) =
     (case deleteQR (Some u) qrId docs of
        (r, docs', Some u') \<Rightarrow> (docs', u')
      | (r, docs', None) \<Rightarrow> (docs', u))"

fun runOps :: "url_parser \<Rightarrow> account_op list \<Rightarrow> qrcode list \<times> user \<Rightarrow> qrcode list \<times> user" where
  "runOps newURL [] s = s"
| "runOps newURL (op # ops) s = runOps newURL ops (applyOp newURL op s)"

section \<open>Concrete inputs\<close>

text \<open>A parser that accepts what starts with a protocol, an account on the free plan,
  a request body with a bare domain, and a stored link.\<close>

definition parser0 :: url_parser where
  "parser0 u = (if hasProtocol u then Some \<lparr>protocol = ''https:''\<rparr> else None)"

definition alice :: user where
  "alice = \<lparr>user_id = 7, email = ''alice@example.com'', name = ''Alice'', plan = ''free'',
     limits = \<lparr>maxQRCodes = 5, maxScansPerMonth = 100, canCustomize = False,
       canTrackAnalytics = False, canExportData = False\<rparr>,
     usage = \<lparr>qrCodesCreated = 0, monthlyScans = 0, lastResetDate = 0\<rparr>\<rparr>"

definition body0 :: generate_body where
  "body0 = \<lparr>body_url = Some (str ''example.com''), body_title = None, body_description = None,
     body_size = None, body_errorCorrectionLevel = None, body_foregroundColor = None,
     body_backgroundColor = None\<rparr>"

definition env0 :: "nat \<Rightarrow> string \<Rightarrow> generated" where
  "env0 i sid = \<lparr>new_shortId = sid, new_oid = i, new_dataURL = Some ''data:image/png;base64,AAAA''\<rparr>"

definition qr0 :: qrcode where
  "qr0 = newQRCode (env0 1 ''Ab3dE6gH'') None body0 (str ''https://example.com'')
           ''data:image/png;base64,AAAA''"

definition scan0 :: "string option \<Rightarrow> scan" where
  "scan0 ua = \<lparr>timestamp = 1791126000000, userAgent = ua, ipAddress = None, location = None\<rparr>"

definition req0 :: "string \<Rightarrow> int \<Rightarrow> scan_request" where
  "req0 sid t = \<lparr>req_shortId = sid, req_userAgent = Some ''Mozilla/5.0 (iPhone)'',
     req_remoteAddress = Some ''203.0.113.9'', req_now = t, req_now2 = t + 1\<rparr>"

section \<open>Plan change recomputes the limits\<close>

text \<open>
  C7. Whatever the account and whatever limits it carried before, running the save hook
  on the account with its plan changed to pro yields the limits
  (100, 10000, true, true, true); free yields (5, 100, false, false, false) and
  enterprise yields (-1, -1, true, true, true). Nothing else of the account changes.
\<close>

theorem plan_change_recomputes_limits:
  "preSave_limits True (u\<lparr>plan := ''pro''\<rparr>) =
     u\<lparr>plan := ''pro'', limits := \<lparr>maxQRCodes = 100, maxScansPerMonth = 10000,
        canCustomize = True, canTrackAnalytics = True, canExportData = True\<rparr>\<rparr>
   \<and> preSave_limits True (u\<lparr>plan := ''free''\<rparr>) =
     u\<lparr>plan := ''free'', limits := \<lparr>maxQRCodes = 5, maxScansPerMonth = 100,
        canCustomize = False, canTrackAnalytics = False, canExportData = False\<rparr>\<rparr>
   \<and> preSave_limits True (u\<lparr>plan := ''enterprise''\<rparr>) =
     u\<lparr>plan := ''enterprise'', limits := \<lparr>maxQRCodes = - 1, maxScansPerMonth = - 1,
        canCustomize = True, canTrackAnalytics = True, canExportData = True\<rparr>\<rparr>"
  by (simp add: preSave_limits_def)

section \<open>Scan recording\<close>

lemma slice_last_id: "length xs \<le> n \<Longrightarrow> slice_last n xs = xs"
  by (simp add: slice_last_def)

lemma length_slice_last: "length (slice_last n xs) = min (length xs) n"
  by (simp add: slice_last_def)

lemma slice_last_slice_last_append:
  "slice_last n (slice_last n xs @ ys) = slice_last n (xs @ ys)"
proof (cases "length xs \<le> n")
  case True
  then show ?thesis by (simp add: slice_last_id)
next
  case False
  then show ?thesis
    by (simp add: slice_last_def min_def add.commute)
qed

lemma trackScan_totalScans: "totalScans (trackScan req a) = totalScans a + 1"
  by (simp add: trackScan_def Let_def)

lemma trackScan_lastScanned: "lastScanned (trackScan req a) = Some (req_now2 req)"
  by (simp add: trackScan_def Let_def)

lemma trackScan_scanHistory:
  "scanHistory (trackScan req a) = slice_last 1000 (scanHistory a @ [scanData req])"
  by (simp add: trackScan_def Let_def slice_last_id)

lemma find_save_loaded:
  "List.find P docs = Some q \<Longrightarrow> P q' \<Longrightarrow> oid q' = oid q \<Longrightarrow>
   List.find P (save_loaded q' docs) = Some q'"
proof (induction docs)
  case Nil
  then show ?case by simp
next
  case (Cons d ds)
  show ?case
  proof (cases "P d")
    case True
    with Cons.prems show ?thesis by (simp add: save_loaded_def)
  next
    case False
    with Cons.prems have "List.find P ds = Some q" by simp
    from Cons.IH[OF this Cons.prems(2,3)] False Cons.prems(2) show ?thesis
      by (simp add: save_loaded_def)
  qed
qed

lemma find_Some_holds: "List.find P xs = Some x \<Longrightarrow> P x"
  by (induction xs) (auto split: if_splits)

lemma redirect_found:
  assumes "findOne (byShortIdActive sid) docs = Some q" and "req_shortId req = sid"
  shows "redirect req docs = (writeHead_302 (url q), save_loaded (scanned req q) docs)"
    and "findOne (byShortIdActive sid) (save_loaded (scanned req q) docs) = Some (scanned req q)"
proof -
  show "redirect req docs = (writeHead_302 (url q), save_loaded (scanned req q) docs)"
    using assms by (simp add: redirect_def scanned_def Let_def)
  have "byShortIdActive sid q" using assms(1) by (simp add: findOne_def find_Some_holds)
  then have "byShortIdActive sid (scanned req q)" by (simp add: byShortIdActive_def scanned_def)
  moreover have "oid (scanned req q) = oid q" by (simp add: scanned_def)
  ultimately show "findOne (byShortIdActive sid) (save_loaded (scanned req q) docs) = Some (scanned req q)"
    using assms(1) by (simp add: findOne_def find_save_loaded)
qed

lemma redirects_found:
  "findOne (byShortIdActive sid) docs = Some q \<Longrightarrow> \<forall>r \<in> set reqs. req_shortId r = sid \<Longrightarrow>
   fst (redirects reqs docs) = replicate (length reqs) (writeHead_302 (url q)) \<and>
   findOne (byShortIdActive sid) (snd (redirects reqs docs))
     = Some (foldl (\<lambda>q r. scanned r q) q reqs)"
proof (induction reqs arbitrary: docs q)
  case Nil
  then show ?case by simp
next
  case (Cons r rs)
  from Cons.prems have r: "req_shortId r = sid" and rs: "\<forall>r \<in> set rs. req_shortId r = sid"
    by simp_all
  note step = redirect_found[OF Cons.prems(1) r]
  have u: "url (scanned r q) = url q" by (simp add: scanned_def)
  from Cons.IH[OF step(2) rs] step(1) u show ?case
    by (simp add: case_prod_unfold)
qed

lemma foldl_scanned_analytics:
  "analytics (foldl (\<lambda>q r. scanned r q) q reqs)
     = foldl (\<lambda>a r. trackScan r a) (analytics q) reqs"
  by (induction reqs arbitrary: q) (simp_all add: scanned_def)

lemma foldl_trackScan:
  "length (scanHistory a) \<le> 1000 \<Longrightarrow>
   totalScans (foldl (\<lambda>a r. trackScan r a) a reqs) = totalScans a + int (length reqs) \<and>
   scanHistory (foldl (\<lambda>a r. trackScan r a) a reqs)
     = slice_last 1000 (scanHistory a @ map scanData reqs) \<and>
   (reqs \<noteq> [] \<longrightarrow>
      lastScanned (foldl (\<lambda>a r. trackScan r a) a reqs) = Some (req_now2 (last reqs)))"
proof (induction reqs rule: rev_induct)
  case Nil
  then show ?case by (simp add: slice_last_id)
next
  case (snoc r rs)
  then show ?case
    by (simp add: trackScan_totalScans trackScan_lastScanned trackScan_scanHistory
        slice_last_slice_last_append)
qed

text \<open>
  C1. Take a collection in which the identifier \<open>sid\<close> resolves to an active link \<open>q\<close>
  that is fresh (no scans counted, empty history), and any sequence \<open>reqs\<close> of \<open>k\<close>
  requests for \<open>sid\<close>. Afterwards \<open>sid\<close> still resolves to an active link whose
  \<open>totalScans\<close> is \<open>k\<close>, whose history has \<open>min k 1000\<close> entries, namely the scans of
  the last 1000 requests in the order they came (the first \<open>k - 1000\<close> are dropped), each
  with the clock reading, user agent and address of its request, and whose
  \<open>lastScanned\<close> is the clock reading of the last request. Step by step: the \<open>n\<close>-th
  request finds the link left by the requests before it, adds one to \<open>totalScans\<close>,
  sets \<open>lastScanned\<close>, and appends its scan to the history, which is then cut to its
  last 1000 entries. Every request is answered with the redirect to the link's URL,
  unless the URL cannot be written as a header value: then the answer is the 500
  response, and the scan is recorded all the same.
\<close>

theorem scan_recording:
  assumes found: "findOne (byShortIdActive sid) docs = Some q"
    and fresh: "totalScans (analytics q) = 0" "scanHistory (analytics q) = []"
    and reqs: "\<forall>r \<in> set reqs. req_shortId r = sid"
  shows "\<exists>q'. findOne (byShortIdActive sid) (snd (redirects reqs docs)) = Some q'
           \<and> totalScans (analytics q') = int (length reqs)
           \<and> length (scanHistory (analytics q')) = min (length reqs) 1000
           \<and> scanHistory (analytics q')
               = drop (length reqs - 1000)
                   (map (\<lambda>r. \<lparr>timestamp = req_now r, userAgent = req_userAgent r,
                              ipAddress = req_remoteAddress r, location = None\<rparr>) reqs)
           \<and> (reqs \<noteq> [] \<longrightarrow> lastScanned (analytics q') = Some (req_now2 (last reqs)))
           \<and> (\<forall>n < length reqs. \<exists>a b.
                 findOne (byShortIdActive sid) (snd (redirects (take n reqs) docs)) = Some a
               \<and> findOne (byShortIdActive sid) (snd (redirects (take (Suc n) reqs) docs)) = Some b
               \<and> totalScans (analytics b) = totalScans (analytics a) + 1
               \<and> lastScanned (analytics b) = Some (req_now2 (reqs ! n))
               \<and> scanHistory (analytics b)
                   = slice_last 1000
                       (scanHistory (analytics a)
                          @ [\<lparr>timestamp = req_now (reqs ! n), userAgent = req_userAgent (reqs ! n),
                              ipAddress = req_remoteAddress (reqs ! n), location = None\<rparr>]))
           \<and> fst (redirects reqs docs)
               = replicate (length reqs)
                   (if checkInvalidHeaderChar (url q) then InternalServerError
                    else Redirect (url q))"
proof -
  let ?after = "\<lambda>rs. foldl (\<lambda>q r. scanned r q) q rs"
  have sd: "scanData = (\<lambda>r. \<lparr>timestamp = req_now r, userAgent = req_userAgent r,
                              ipAddress = req_remoteAddress r, location = None\<rparr>)"
    by (rule ext) (simp add: scanData_def)
  have after: "findOne (byShortIdActive sid) (snd (redirects rs docs)) = Some (?after rs)"
    and resp: "fst (redirects rs docs) = replicate (length rs) (writeHead_302 (url q))"
    if "set rs \<subseteq> set reqs" for rs
    using redirects_found[OF found, of rs] reqs that by auto
  have len: "length (scanHistory (analytics q)) \<le> 1000" using fresh by simp
  from foldl_trackScan[OF len, of reqs] fresh
  have 3: "totalScans (analytics (?after reqs)) = int (length reqs)"
    and 4: "scanHistory (analytics (?after reqs)) = slice_last 1000 (map scanData reqs)"
    and 5: "reqs \<noteq> [] \<longrightarrow> lastScanned (analytics (?after reqs)) = Some (req_now2 (last reqs))"
    by (simp_all add: foldl_scanned_analytics)
  from 4 have 6: "scanHistory (analytics (?after reqs))
      = drop (length reqs - 1000)
          (map (\<lambda>r. \<lparr>timestamp = req_now r, userAgent = req_userAgent r,
                     ipAddress = req_remoteAddress r, location = None\<rparr>) reqs)"
    unfolding sd by (simp add: slice_last_def)
  from 4 have 7: "length (scanHistory (analytics (?after reqs))) = min (length reqs) 1000"
    by (simp add: length_slice_last)
  have 8: "\<exists>a b.
        findOne (byShortIdActive sid) (snd (redirects (take n reqs) docs)) = Some a
      \<and> findOne (byShortIdActive sid) (snd (redirects (take (Suc n) reqs) docs)) = Some b
      \<and> totalScans (analytics b) = totalScans (analytics a) + 1
      \<and> lastScanned (analytics b) = Some (req_now2 (reqs ! n))
      \<and> scanHistory (analytics b)
          = slice_last 1000
              (scanHistory (analytics a)
                 @ [\<lparr>timestamp = req_now (reqs ! n), userAgent = req_userAgent (reqs ! n),
                     ipAddress = req_remoteAddress (reqs ! n), location = None\<rparr>])"
    if n: "n < length reqs" for n
  proof -
    have a: "findOne (byShortIdActive sid) (snd (redirects (take n reqs) docs))
               = Some (?after (take n reqs))"
      by (rule after) (rule set_take_subset)
    have b: "findOne (byShortIdActive sid) (snd (redirects (take (Suc n) reqs) docs))
               = Some (?after (take (Suc n) reqs))"
      by (rule after) (rule set_take_subset)
    have s: "?after (take (Suc n) reqs) = scanned (reqs ! n) (?after (take n reqs))"
      using n by (simp add: take_Suc_conv_app_nth)
    have "analytics (?after (take (Suc n) reqs))
            = trackScan (reqs ! n) (analytics (?after (take n reqs)))"
      unfolding s by (simp add: scanned_def)
    with a b show ?thesis
      by (simp add: trackScan_totalScans trackScan_lastScanned trackScan_scanHistory
          scanData_def)
  qed
  have 9: "fst (redirects reqs docs)
      = replicate (length reqs)
          (if checkInvalidHeaderChar (url q) then InternalServerError else Redirect (url q))"
    using resp[of reqs] by (simp add: writeHead_302_def)
  from after[of reqs] 3 5 6 7 8 9 show ?thesis by blast
qed

text \<open>Two scans of a link to \<open>https://example.com\<close>, and one scan of a link whose URL
  ends in two Japanese characters: recorded, and answered with 500.\<close>

theorem scan_recording_witness:
  "(\<exists>q'. findOne (byShortIdActive ''Ab3dE6gH'')
           (snd (redirects [req0 ''Ab3dE6gH'' 10, req0 ''Ab3dE6gH'' 20] [qr0])) = Some q'
      \<and> totalScans (analytics q') = 2
      \<and> scanHistory (analytics q')
          = [\<lparr>timestamp = 10, userAgent = Some ''Mozilla/5.0 (iPhone)'',
              ipAddress = Some ''203.0.113.9'', location = None\<rparr>,
             \<lparr>timestamp = 20, userAgent = Some ''Mozilla/5.0 (iPhone)'',
              ipAddress = Some ''203.0.113.9'', location = None\<rparr>]
      \<and> lastScanned (analytics q') = Some 21)
   \<and> fst (redirects [req0 ''Ab3dE6gH'' 10, req0 ''Ab3dE6gH'' 20] [qr0])
       = [Redirect (str ''https://example.com''), Redirect (str ''https://example.com'')]
   \<and> (\<exists>q'. findOne (byShortIdActive ''Ab3dE6gH'')
           (snd (redirects [req0 ''Ab3dE6gH'' 10]
                   [qr0\<lparr>url := str ''https://example.com/'' @ [26085, 26412]\<rparr>])) = Some q'
      \<and> totalScans (analytics q') = 1)
   \<and> fst (redirects [req0 ''Ab3dE6gH'' 10]
             [qr0\<lparr>url := str ''https://example.com/'' @ [26085, 26412]\<rparr>])
       = [InternalServerError]"
proof -
  let ?q1 = "qr0\<lparr>url := str ''https://example.com/'' @ [26085, 26412]\<rparr>"
  have f: "findOne (byShortIdActive ''Ab3dE6gH'') [qr0] = Some qr0"
    by (simp add: findOne_def byShortIdActive_def qr0_def newQRCode_def env0_def)
  have a: "totalScans (analytics qr0) = 0" "scanHistory (analytics qr0) = []"
    by (simp_all add: qr0_def newQRCode_def)
  have r: "\<forall>r \<in> set [req0 ''Ab3dE6gH'' 10, req0 ''Ab3dE6gH'' 20]. req_shortId r = ''Ab3dE6gH''"
    by (simp add: req0_def)
  have u: "url qr0 = str ''https://example.com''"
    by (simp add: qr0_def newQRCode_def)
  have v: "\<not> checkInvalidHeaderChar (str ''https://example.com'')"
    by code_simp
  have f1: "findOne (byShortIdActive ''Ab3dE6gH'') [?q1] = Some ?q1"
    by (simp add: findOne_def byShortIdActive_def qr0_def newQRCode_def env0_def)
  have a1: "totalScans (analytics ?q1) = 0" "scanHistory (analytics ?q1) = []"
    by (simp_all add: qr0_def newQRCode_def)
  have r1: "\<forall>r \<in> set [req0 ''Ab3dE6gH'' 10]. req_shortId r = ''Ab3dE6gH''"
    by (simp add: req0_def)
  have v1: "checkInvalidHeaderChar (url ?q1)"
    by code_simp
  from scan_recording[OF f a r] u v
  have 1: "\<exists>q'. findOne (byShortIdActive ''Ab3dE6gH'')
           (snd (redirects [req0 ''Ab3dE6gH'' 10, req0 ''Ab3dE6gH'' 20] [qr0])) = Some q'
      \<and> totalScans (analytics q') = 2
      \<and> scanHistory (analytics q')
          = [\<lparr>timestamp = 10, userAgent = Some ''Mozilla/5.0 (iPhone)'',
              ipAddress = Some ''203.0.113.9'', location = None\<rparr>,
             \<lparr>timestamp = 20, userAgent = Some ''Mozilla/5.0 (iPhone)'',
              ipAddress = Some ''203.0.113.9'', location = None\<rparr>]
      \<and> lastScanned (analytics q') = Some 21"
    and 2: "fst (redirects [req0 ''Ab3dE6gH'' 10, req0 ''Ab3dE6gH'' 20] [qr0])
       = [Redirect (str ''https://example.com''), Redirect (str ''https://example.com'')]"
    by (auto simp: req0_def)
  from scan_recording[OF f1 a1 r1] v1
  have 3: "\<exists>q'. findOne (byShortIdActive ''Ab3dE6gH'') (snd (redirects [req0 ''Ab3dE6gH'' 10] [?q1]))
             = Some q' \<and> totalScans (analytics q') = 1"
    and 4: "fst (redirects [req0 ''Ab3dE6gH'' 10] [?q1]) = [InternalServerError]"
    by auto
  from 1 2 3 4 show ?thesis by blast
qed

section \<open>Links that do not resolve\<close>

lemma map_get_Some_member: "map_get m k = Some v \<Longrightarrow> (k, v) \<in> set m"
  by (induction m) (auto split: if_splits)

lemma map_set_member:
  "(k', v') \<in> set (map_set m k v) \<Longrightarrow> (k', v') \<in> set m \<or> (k' = k \<and> v' = v)"
  by (induction m) (auto split: if_splits)

lemma proto_generate_member:
  "(k, q) \<in> set (proto_generate newURL sid dataURL currentUser body s) \<Longrightarrow>
   (k, q) \<in> set s \<or> proto_isActive q"
  by (auto simp: proto_generate_def Let_def split: option.splits if_splits
      dest!: map_set_member)

lemma proto_redirect_member:
  assumes "(k, q) \<in> set (snd (proto_redirect now sid s))"
    and "\<forall>(k, q) \<in> set s. proto_isActive q"
  shows "proto_isActive q"
proof (cases "map_get s sid")
  case None
  with assms show ?thesis by (auto simp: proto_redirect_def)
next
  case (Some qrCode)
  then have "(sid, qrCode) \<in> set s" by (rule map_get_Some_member)
  with assms(2) have "proto_isActive qrCode" by auto
  with assms Some show ?thesis
    by (auto simp: proto_redirect_def Let_def dest!: map_set_member)
qed

lemma proto_links_active:
  "proto_reachable s \<Longrightarrow> \<forall>(k, q) \<in> set s. proto_isActive q"
proof (induction rule: proto_reachable.induct)
  case start
  then show ?case by simp
next
  case (generated s newURL sid dataURL currentUser body)
  then show ?case by (auto dest: proto_generate_member)
next
  case (redirected s now sid)
  then show ?case by (auto dest: proto_redirect_member)
qed

text \<open>
  C5. When every stored link that carries the requested identifier is inactive (in
  particular when no link carries it), the redirect handler answers with the not-found
  page, never with a redirect, and leaves the whole collection, hence every link's
  \<open>totalScans\<close>, \<open>lastScanned\<close> and \<open>scanHistory\<close>, as it was. The in-memory prototype
  answers an identifier that is not in its map in the same way; it does not look at
  \<open>isActive\<close>, and no link in a map it can reach is inactive.
\<close>

theorem inactive_or_unknown_is_not_found:
  assumes "\<forall>q \<in> set docs. shortId q = req_shortId req \<longrightarrow> isActive q = False"
  shows "redirect req docs = (NotFoundPage, docs)
       \<and> (\<forall>u. fst (redirect req docs) \<noteq> Redirect u)
       \<and> (map_get qrCodes sid = None \<longrightarrow> proto_redirect now sid qrCodes = (NotFoundPage, qrCodes))
       \<and> (proto_reachable qrCodes \<longrightarrow> (\<forall>q. map_get qrCodes sid = Some q \<longrightarrow> proto_isActive q))"
proof -
  from assms have "List.find (byShortIdActive (req_shortId req)) docs = None"
    by (auto simp: find_None_iff byShortIdActive_def)
  then have 1: "redirect req docs = (NotFoundPage, docs)"
    by (simp add: redirect_def findOne_def)
  have 2: "proto_isActive q" if "proto_reachable qrCodes" "map_get qrCodes sid = Some q" for q
    using proto_links_active[OF that(1)] map_get_Some_member[OF that(2)] by auto
  from 1 2 show ?thesis by (auto simp: proto_redirect_def)
qed

theorem inactive_or_unknown_is_not_found_witness:
  "redirect (req0 ''Ab3dE6gH'' 10) [qr0\<lparr>isActive := False\<rparr>]
     = (NotFoundPage, [qr0\<lparr>isActive := False\<rparr>])
   \<and> redirect (req0 ''zzzzzzzz'' 10) [qr0] = (NotFoundPage, [qr0])
   \<and> proto_redirect 10 ''zzzzzzzz'' (proto_generate parser0 ''Ab3dE6gH'' (Some ''data:'') None body0 [])
     = (NotFoundPage, proto_generate parser0 ''Ab3dE6gH'' (Some ''data:'') None body0 [])"
proof -
  have 1: "\<forall>q \<in> set [qr0\<lparr>isActive := False\<rparr>].
             shortId q = req_shortId (req0 ''Ab3dE6gH'' 10) \<longrightarrow> isActive q = False"
    by simp
  have 2: "\<forall>q \<in> set [qr0]. shortId q = req_shortId (req0 ''zzzzzzzz'' 10) \<longrightarrow> isActive q = False"
    by (simp add: qr0_def newQRCode_def env0_def req0_def)
  have 3: "map_get (proto_generate parser0 ''Ab3dE6gH'' (Some ''data:'') None body0 []) ''zzzzzzzz''
             = None"
    by code_simp
  from inactive_or_unknown_is_not_found[OF 1]
  have a: "redirect (req0 ''Ab3dE6gH'' 10) [qr0\<lparr>isActive := False\<rparr>]
             = (NotFoundPage, [qr0\<lparr>isActive := False\<rparr>])"
    by blast
  from inactive_or_unknown_is_not_found[OF 2,
      of "proto_generate parser0 ''Ab3dE6gH'' (Some ''data:'') None body0 []" "''zzzzzzzz''" 10] 3
  have b: "redirect (req0 ''zzzzzzzz'' 10) [qr0] = (NotFoundPage, [qr0])"
    and c: "proto_redirect 10 ''zzzzzzzz'' (proto_generate parser0 ''Ab3dE6gH'' (Some ''data:'') None body0 [])
     = (NotFoundPage, proto_generate parser0 ''Ab3dE6gH'' (Some ''data:'') None body0 [])"
    by blast+
  from a b c show ?thesis by blast
qed

section \<open>Update and delete do not reveal existence\<close>

text \<open>
  C8. For a signed-in user and a link id: in a collection where no link has that id, and
  in a collection where a link has that id but no such link belongs to the user, update
  and delete give the same response, 404 with the message \<^verbatim>\<open>QR code not found\<close>,
  and change nothing (neither the collection nor the user's counter).
\<close>

theorem not_found_hides_existence:
  assumes "\<forall>q \<in> set docs1. oid q \<noteq> qrId"
    and "\<exists>q \<in> set docs2. oid q = qrId"
    and "\<forall>q \<in> set docs2. oid q = qrId \<longrightarrow> userId q \<noteq> Some (user_id user)"
  shows "fst (updateQR (Some user) qrId body docs1) = fst (updateQR (Some user) qrId body docs2)
       \<and> fst (deleteQR (Some user) qrId docs1) = fst (deleteQR (Some user) qrId docs2)
       \<and> updateQR (Some user) qrId body docs1 = (NotFound ''QR code not found'', docs1)
       \<and> updateQR (Some user) qrId body docs2 = (NotFound ''QR code not found'', docs2)
       \<and> deleteQR (Some user) qrId docs1 = (NotFound ''QR code not found'', docs1, Some user)
       \<and> deleteQR (Some user) qrId docs2 = (NotFound ''QR code not found'', docs2, Some user)"
proof -
  from assms(1) have 1: "findOne (byIdAndOwner qrId (user_id user)) docs1 = None"
    by (auto simp: findOne_def find_None_iff byIdAndOwner_def)
  from assms(3) have 2: "findOne (byIdAndOwner qrId (user_id user)) docs2 = None"
    by (auto simp: findOne_def find_None_iff byIdAndOwner_def)
  from 1 2 show ?thesis by (simp add: updateQR_def deleteQR_def)
qed

theorem not_found_hides_existence_witness:
  "updateQR (Some alice) 1 \<lparr>upd_title = None, upd_description = None, upd_isActive = Some False\<rparr> []
     = (NotFound ''QR code not found'', [])
   \<and> updateQR (Some alice) 1 \<lparr>upd_title = None, upd_description = None, upd_isActive = Some False\<rparr>
         [qr0\<lparr>userId := Some 8\<rparr>]
     = (NotFound ''QR code not found'', [qr0\<lparr>userId := Some 8\<rparr>])
   \<and> deleteQR (Some alice) 1 [] = (NotFound ''QR code not found'', [], Some alice)
   \<and> deleteQR (Some alice) 1 [qr0\<lparr>userId := Some 8\<rparr>]
     = (NotFound ''QR code not found'', [qr0\<lparr>userId := Some 8\<rparr>], Some alice)"
proof -
  have 1: "\<forall>q \<in> set ([] :: qrcode list). oid q \<noteq> 1" by simp
  have 2: "\<exists>q \<in> set [qr0\<lparr>userId := Some 8\<rparr>]. oid q = 1"
    by (simp add: qr0_def newQRCode_def env0_def)
  have 3: "\<forall>q \<in> set [qr0\<lparr>userId := Some 8\<rparr>]. oid q = 1 \<longrightarrow> userId q \<noteq> Some (user_id alice)"
    by (simp add: alice_def)
  from not_found_hides_existence[OF 1 2 3] show ?thesis by simp
qed

section \<open>Premium flag of a new link\<close>

lemma isPremium_of_iff:
  "isPremium_of currentUser = (case currentUser of None \<Rightarrow> True | Some u \<Rightarrow> plan u \<noteq> ''free'')"
  by (cases currentUser) (simp_all add: isPremium_of_def)

lemma generate_cases:
  "generate newURL env currentUser body docs = (r, docs', u') \<Longrightarrow>
   (docs' = docs \<and> u' = currentUser \<and> (\<forall>q. r \<noteq> Created q)) \<or>
   (\<exists>q. r = Created q \<and> docs' = docs @ [q] \<and> isPremium q = isPremium_of currentUser
        \<and> u' = map_option incrementCreated currentUser)"
  by (auto simp: generate_def Let_def save_new_def checkPlanLimit_def newQRCode_def
      split: option.splits if_splits sum.splits)

text \<open>
  C9. A creation request either stores nothing or appends exactly one link, the one it
  reports. The stored link's \<open>isPremium\<close> is true when nobody is signed in, and for a
  signed-in owner it is true exactly when the owner's plan is not the string \<open>free\<close>.
\<close>

theorem premium_flag_of_created_link:
  assumes "generate newURL env currentUser body docs = (r, docs', u')"
  shows "(docs' = docs \<and> (\<forall>q. r \<noteq> Created q)) \<or>
         (\<exists>q. docs' = docs @ [q] \<and> r = Created q
            \<and> isPremium q = (case currentUser of None \<Rightarrow> True | Some u \<Rightarrow> plan u \<noteq> ''free''))"
  using generate_cases[OF assms] by (auto simp: isPremium_of_iff)

theorem premium_flag_of_created_link_witness:
  "(\<exists>q. fst (snd (generate parser0 (env0 1 ''Ab3dE6gH'') None body0 [])) = [q] \<and> isPremium q = True)
   \<and> (\<exists>q. fst (snd (generate parser0 (env0 1 ''Ab3dE6gH'') (Some alice) body0 [])) = [q]
           \<and> isPremium q = False)"
proof -
  have 1: "generate parser0 (env0 1 ''Ab3dE6gH'') None body0 [] = (Created qr0, [qr0], None)"
    by code_simp
  have 2: "generate parser0 (env0 1 ''Ab3dE6gH'') (Some alice) body0 []
             = (Created (qr0\<lparr>userId := Some 7, isPremium := False\<rparr>),
                [qr0\<lparr>userId := Some 7, isPremium := False\<rparr>], Some (incrementCreated alice))"
    by code_simp
  from premium_flag_of_created_link[OF 1] have a: "isPremium qr0 = True"
    by simp
  from premium_flag_of_created_link[OF 2]
  have b: "isPremium (qr0\<lparr>userId := Some 7, isPremium := False\<rparr>) = False"
    by simp
  show ?thesis unfolding 1 2 using a b by simp
qed

section \<open>The usage counter\<close>

lemma deleteQR_user:
  "deleteQR (Some u) qrId docs = (r, docs', u') \<Longrightarrow>
   u' = Some u \<or> u' = Some (decrementCreated u)"
  by (auto simp: deleteQR_def split: option.splits)

lemma incrementCreated_nonneg:
  "0 \<le> qrCodesCreated (usage u) \<Longrightarrow> 0 \<le> qrCodesCreated (usage (incrementCreated u))"
  by (simp add: incrementCreated_def)

lemma decrementCreated_nonneg:
  "0 \<le> qrCodesCreated (usage u) \<Longrightarrow> 0 \<le> qrCodesCreated (usage (decrementCreated u))"
  by (simp add: decrementCreated_def)

lemma applyOp_nonneg:
  assumes "0 \<le> qrCodesCreated (usage (snd s))"
  shows "0 \<le> qrCodesCreated (usage (snd (applyOp newURL op s)))"
proof (cases s)
  case (Pair docs u)
  show ?thesis
  proof (cases op)
    case (CreateOp env body)
    obtain r docs' u' where g: "generate newURL env (Some u) body docs = (r, docs', u')"
      by (cases "generate newURL env (Some u) body docs") auto
    from generate_cases[OF g] have "u' = Some u \<or> u' = Some (incrementCreated u)" by auto
    with assms Pair CreateOp g show ?thesis
      by (auto simp: incrementCreated_nonneg)
  next
    case (DeleteOp qrId)
    obtain r docs' u' where d: "deleteQR (Some u) qrId docs = (r, docs', u')"
      by (cases "deleteQR (Some u) qrId docs") auto
    from deleteQR_user[OF d] assms Pair DeleteOp d show ?thesis
      by (auto simp: decrementCreated_nonneg)
  qed
qed

text \<open>
  C10. Starting from any collection and an account whose \<open>qrCodesCreated\<close> is not
  negative, after any sequence of create and delete requests of that account the
  counter is still not negative. Nothing relates the counter to the number of links the
  account owns: the collection at the start is arbitrary.
\<close>

theorem created_counter_never_negative:
  "0 \<le> qrCodesCreated (usage (snd s)) \<Longrightarrow>
   0 \<le> qrCodesCreated (usage (snd (runOps newURL ops s)))"
proof (induction ops arbitrary: s)
  case Nil
  then show ?case by simp
next
  case (Cons op ops)
  from Cons.IH[OF applyOp_nonneg[OF Cons.prems]] show ?case by simp
qed

text \<open>The account owns a link while its counter is 0; deleting the link leaves the
  counter at 0, and a creation and a deletion after that bring it to 1 and back.\<close>

theorem created_counter_never_negative_witness:
  "0 \<le> qrCodesCreated (usage (snd ([qr0\<lparr>userId := Some 7\<rparr>], alice)))
   \<and> 0 \<le> qrCodesCreated (usage (snd (runOps parser0
            [DeleteOp 1, CreateOp (env0 2 ''Zz9yX8wV'') body0, DeleteOp 2]
            ([qr0\<lparr>userId := Some 7\<rparr>], alice))))
   \<and> runOps parser0 [DeleteOp 1] ([qr0\<lparr>userId := Some 7\<rparr>], alice) = ([], alice)"
proof -
  have 0: "0 \<le> qrCodesCreated (usage (snd ([qr0\<lparr>userId := Some 7\<rparr>], alice)))"
    by (simp add: alice_def)
  have 1: "runOps parser0 [DeleteOp 1] ([qr0\<lparr>userId := Some 7\<rparr>], alice) = ([], alice)"
    by code_simp
  have 2: "0 \<le> qrCodesCreated (usage (snd (runOps parser0
            [DeleteOp 1, CreateOp (env0 2 ''Zz9yX8wV'') body0, DeleteOp 2]
            ([qr0\<lparr>userId := Some 7\<rparr>], alice))))"
    using 0 by (rule created_counter_never_negative)
  show ?thesis by (intro conjI) (rule 0, rule 2, rule 1)
qed

section \<open>The plan limit\<close>

lemma plan_limit_check:
  "checkPlanLimit None docs = None"
  "checkPlanLimit (Some u) docs = None \<longleftrightarrow>
     int (countDocuments (byOwner (user_id u)) docs) < maxQRCodes (limits u)"
  by (auto simp: checkPlanLimit_def planLimitReached_def)

lemma free_plan_five_then_refused:
  "(case runOps parser0
      [CreateOp (env0 1 ''Ab3dE6g1'') body0, CreateOp (env0 2 ''Ab3dE6g2'') body0,
       CreateOp (env0 3 ''Ab3dE6g3'') body0, CreateOp (env0 4 ''Ab3dE6g4'') body0,
       CreateOp (env0 5 ''Ab3dE6g5'') body0] ([], alice) of
      (docs5, alice5) \<Rightarrow>
        length docs5 = 5 \<and> qrCodesCreated (usage alice5) = 5 \<and>
        generate parser0 (env0 6 ''Ab3dE6g6'') (Some alice5) body0 docs5
          = (PlanLimitReached 5 ''free'', docs5, Some alice5))"
  by code_simp

text \<open>The account the save hook produces for the enterprise plan.\<close>

lemma enterprise_limit:
  "maxQRCodes (limits (preSave_limits True (alice\<lparr>plan := ''enterprise''\<rparr>))) = - 1"
  by (simp add: preSave_limits_def)

text \<open>
  C2. The check lets a creation pass exactly when the number of links the account owns
  is below \<open>maxQRCodes\<close> (\<open>plan_limit_check\<close>); on the free plan the first five
  creations pass and the sixth is refused (\<open>free_plan_five_then_refused\<close>). It has no
  case for -1: an enterprise account (limit -1, which the schema calls unlimited) that
  owns no link is refused with 403, and nothing is stored.
\<close>

theorem unlimited_plan_is_refused:
  "generate parser0 (env0 1 ''Ab3dE6gH'')
     (Some (preSave_limits True (alice\<lparr>plan := ''enterprise''\<rparr>))) body0 []
   = (PlanLimitReached (- 1) ''enterprise'', [],
      Some (preSave_limits True (alice\<lparr>plan := ''enterprise''\<rparr>)))"
  by code_simp

section \<open>Sanitising and validating a URL\<close>

lemma trim_decomposition:
  "\<exists>l r. s = l @ trim s @ r \<and> list_all isWhiteSpace l \<and> list_all isWhiteSpace r"
proof -
  let ?t = "dropWhile isWhiteSpace s"
  have 1: "s = takeWhile isWhiteSpace s @ ?t" by simp
  have 2: "?t = trim s @ rev (takeWhile isWhiteSpace (rev ?t))"
    unfolding trim_def by (metis rev_append rev_rev_ident takeWhile_dropWhile_id)
  have 3: "list_all isWhiteSpace (takeWhile isWhiteSpace s)"
    by (auto simp: list_all_iff dest: set_takeWhileD)
  have 4: "list_all isWhiteSpace (rev (takeWhile isWhiteSpace (rev ?t)))"
    by (auto simp: list_all_iff dest: set_takeWhileD)
  from 1 2 have "s = takeWhile isWhiteSpace s @ trim s @ rev (takeWhile isWhiteSpace (rev ?t))"
    by simp
  with 3 4 show ?thesis by blast
qed

lemma trim_ends:
  assumes "trim s \<noteq> []"
  shows "\<not> isWhiteSpace (hd (trim s))" and "\<not> isWhiteSpace (last (trim s))"
proof -
  let ?t = "dropWhile isWhiteSpace s"
  let ?u = "dropWhile isWhiteSpace (rev ?t)"
  from assms have u: "?u \<noteq> []" by (simp add: trim_def)
  have t: "?t \<noteq> []"
  proof
    assume "?t = []"
    with u show False by simp
  qed
  have "last (trim s) = hd ?u" using u by (simp add: trim_def last_rev)
  moreover have "\<not> isWhiteSpace (hd ?u)" using u by (rule hd_dropWhile)
  ultimately show "\<not> isWhiteSpace (last (trim s))" by simp
  have "?t = trim s @ rev (takeWhile isWhiteSpace (rev ?t))"
    unfolding trim_def by (metis rev_append rev_rev_ident takeWhile_dropWhile_id)
  with assms have "hd ?t = hd (trim s)" by (metis hd_append2)
  moreover have "\<not> isWhiteSpace (hd ?t)" using t by (rule hd_dropWhile)
  ultimately show "\<not> isWhiteSpace (hd (trim s))" by simp
qed

lemma length_str: "length (str s) = length s"
  by (simp add: str_def)

lemma hasProtocol_iff:
  "hasProtocol u \<longleftrightarrow>
     (\<exists>p rest. u = p @ rest \<and> (map foldCase p = str ''http://'' \<or> map foldCase p = str ''https://''))"
proof
  assume "hasProtocol u"
  then consider "map foldCase (take 7 u) = str ''http://''" | "map foldCase (take 8 u) = str ''https://''"
    by (auto simp: hasProtocol_def)
  then show "\<exists>p rest. u = p @ rest \<and> (map foldCase p = str ''http://'' \<or> map foldCase p = str ''https://'')"
  proof cases
    case 1
    have "u = take 7 u @ drop 7 u" by simp
    with 1 show ?thesis by blast
  next
    case 2
    have "u = take 8 u @ drop 8 u" by simp
    with 2 show ?thesis by blast
  qed
next
  assume "\<exists>p rest. u = p @ rest \<and> (map foldCase p = str ''http://'' \<or> map foldCase p = str ''https://'')"
  then obtain p rest where u: "u = p @ rest"
    and p: "map foldCase p = str ''http://'' \<or> map foldCase p = str ''https://''" by blast
  from p show "hasProtocol u"
  proof
    assume a: "map foldCase p = str ''http://''"
    then have "length p = 7" using length_str[of "''http://''"] length_map[of foldCase p] by simp
    with u a show ?thesis by (simp add: hasProtocol_def)
  next
    assume a: "map foldCase p = str ''https://''"
    then have "length p = 8" using length_str[of "''https://''"] length_map[of foldCase p] by simp
    with u a show ?thesis by (simp add: hasProtocol_def)
  qed
qed

lemma hasProtocol_sanitizeUrl: "hasProtocol (sanitizeUrl s)"
proof (cases "hasProtocol (trim s)")
  case True
  then show ?thesis by (simp add: sanitizeUrl_def)
next
  case False
  have "map foldCase (str ''https://'') = str ''https://''"
    by (simp add: str_def foldCase_def)
  moreover have "take 8 (str ''https://'' @ trim s) = str ''https://''"
    by (simp add: length_str)
  ultimately have "hasProtocol (str ''https://'' @ trim s)"
    by (simp add: hasProtocol_def)
  with False show ?thesis by (simp add: sanitizeUrl_def)
qed

text \<open>
  C6. \<open>sanitizeUrl\<close> removes the white space at both ends of its input and puts
  \<open>https://\<close> in front exactly when what is left does not start, in any letter case,
  with \<open>http://\<close> or \<open>https://\<close>; so its result always starts with one of them, and
  \<open>example.com\<close> becomes \<open>https://example.com\<close>. Whenever the sanitised form parses
  as a URL whose protocol is \<open>http:\<close> or \<open>https:\<close>, \<open>validateUrl\<close> accepts it (the
  one that checks the protocol, and the servers' one that only parses).
\<close>

theorem sanitize_then_validate:
  "sanitizeUrl s = (if hasProtocol (trim s) then trim s else str ''https://'' @ trim s)
   \<and> (\<exists>l r. s = l @ trim s @ r \<and> list_all isWhiteSpace l \<and> list_all isWhiteSpace r)
   \<and> (trim s \<noteq> [] \<longrightarrow> \<not> isWhiteSpace (hd (trim s)) \<and> \<not> isWhiteSpace (last (trim s)))
   \<and> (hasProtocol (trim s) \<longleftrightarrow>
        (\<exists>p rest. trim s = p @ rest
           \<and> (map foldCase p = str ''http://'' \<or> map foldCase p = str ''https://'')))
   \<and> hasProtocol (sanitizeUrl s)
   \<and> sanitizeUrl (str ''example.com'') = str ''https://example.com''
   \<and> (\<forall>newURL parsed.
         newURL (sanitizeUrl s) = Some parsed \<and> protocol parsed \<in> {''http:'', ''https:''}
         \<longrightarrow> validateUrl newURL (sanitizeUrl s) \<and> validateUrl_server newURL (sanitizeUrl s))"
proof -
  have 1: "sanitizeUrl s = (if hasProtocol (trim s) then trim s else str ''https://'' @ trim s)"
    by (simp add: sanitizeUrl_def)
  have 2: "sanitizeUrl (str ''example.com'') = str ''https://example.com''"
    by code_simp
  have 3: "validateUrl newURL (sanitizeUrl s) \<and> validateUrl_server newURL (sanitizeUrl s)"
    if "newURL (sanitizeUrl s) = Some parsed \<and> protocol parsed \<in> {''http:'', ''https:''}"
    for newURL parsed
    using that by (auto simp: validateUrl_def validateUrl_server_def)
  from 1 2 3 trim_decomposition[of s] trim_ends[of s] hasProtocol_iff[of "trim s"]
    hasProtocol_sanitizeUrl[of s]
  show ?thesis by blast
qed

theorem sanitize_then_validate_witness:
  "sanitizeUrl (str ''  Example.com/a b  '') = str ''https://Example.com/a b''
   \<and> sanitizeUrl (str '' HTTP://example.com'') = str ''HTTP://example.com''
   \<and> validateUrl parser0 (sanitizeUrl (str ''  Example.com/a b  ''))"
proof -
  have t: "trim (str ''  Example.com/a b  '') = str ''Example.com/a b''"
    by code_simp
  have n: "\<not> hasProtocol (str ''Example.com/a b'')" by code_simp
  have t2: "trim (str '' HTTP://example.com'') = str ''HTTP://example.com''"
    by code_simp
  have y: "hasProtocol (str ''HTTP://example.com'')" by code_simp
  have a: "str ''https://'' @ str ''Example.com/a b'' = str ''https://Example.com/a b''"
    by (simp add: str_def)
  note th = sanitize_then_validate[of "str ''  Example.com/a b  ''"]
  from th t n a have 1: "sanitizeUrl (str ''  Example.com/a b  '') = str ''https://Example.com/a b''"
    by simp
  from sanitize_then_validate[of "str '' HTTP://example.com''"] t2 y
  have 2: "sanitizeUrl (str '' HTTP://example.com'') = str ''HTTP://example.com''"
    by simp
  have p: "parser0 (sanitizeUrl (str ''  Example.com/a b  '')) = Some \<lparr>protocol = ''https:''\<rparr>
           \<and> protocol \<lparr>protocol = ''https:''\<rparr> \<in> {''http:'', ''https:''}"
  proof -
    from th have "hasProtocol (sanitizeUrl (str ''  Example.com/a b  ''))" by blast
    then show ?thesis by (simp add: parser0_def)
  qed
  from th p have 3: "validateUrl parser0 (sanitizeUrl (str ''  Example.com/a b  ''))"
    by blast
  from 1 2 3 show ?thesis by blast
qed

section \<open>Device statistics\<close>

lemma map_get_map_set:
  "map_get (map_set m k v) k' = (if k' = k then Some v else map_get m k')"
  by (induction m) auto

lemma keys_map_set:
  "map fst (map_set m k v) = (if k \<in> fst ` set m then map fst m else map fst m @ [k])"
proof (induction m)
  case Nil
  then show ?case by simp
next
  case (Cons a m)
  obtain k' v' where a: "a = (k', v')" by (cases a)
  show ?case
  proof (cases "k' = k")
    case True
    with a show ?thesis by simp
  next
    case False
    then have "k \<in> fst ` set (a # m) \<longleftrightarrow> k \<in> fst ` set m" using a by auto
    with False a Cons.IH show ?thesis by simp
  qed
qed

lemma distinct_map_set:
  "distinct (map fst m) \<Longrightarrow> distinct (map fst (map_set m k v))"
  by (simp add: keys_map_set)

lemma map_get_Some_iff:
  "distinct (map fst m) \<Longrightarrow> map_get m k = Some v \<longleftrightarrow> (k, v) \<in> set m"
proof (induction m)
  case Nil
  then show ?case by simp
next
  case (Cons a m)
  obtain k' v' where a: "a = (k', v')" by (cases a)
  from Cons.prems a have fresh: "k' \<notin> fst ` set m" and d: "distinct (map fst m)" by simp_all
  show ?case
  proof (cases "k' = k")
    case True
    with fresh have "(k, v) \<notin> set m" by force
    with True a show ?thesis by auto
  next
    case False
    with a Cons.IH[OF d] show ?thesis by auto
  qed
qed

lemma increment_eq: "increment m k = map_set m k (tally m k + 1)"
  by (simp add: increment_def tally_def split: option.splits)

lemma tally_increment:
  "tally (increment m k) k' = (if k' = k then tally m k + 1 else tally m k')"
  by (simp add: increment_eq tally_def map_get_map_set)

lemma keys_increment: "fst ` set (increment m k) = insert k (fst ` set m)"
proof -
  have "set (map fst (increment m k)) = insert k (set (map fst m))"
    unfolding increment_eq keys_map_set by auto
  then show ?thesis by simp
qed

lemma distinct_increment:
  "distinct (map fst m) \<Longrightarrow> distinct (map fst (increment m k))"
  by (simp add: increment_eq distinct_map_set)

lemma tally_foldl_increment:
  "tally (foldl increment m ks) k = tally m k + count_list ks k"
  by (induction ks arbitrary: m) (simp_all add: tally_increment)

lemma keys_foldl_increment:
  "fst ` set (foldl increment m ks) = fst ` set m \<union> set ks"
  by (induction ks arbitrary: m) (simp_all add: keys_increment)

lemma distinct_foldl_increment:
  "distinct (map fst m) \<Longrightarrow> distinct (map fst (foldl increment m ks))"
  by (induction ks arbitrary: m) (simp_all add: distinct_increment)

lemma deviceMap_loop:
  "foldl (\<lambda>m scan. case userAgent scan of
                      None \<Rightarrow> m
                    | Some ua \<Rightarrow> if ua = [] then m else increment m (deviceOf ua)) m h
   = foldl increment m (devices_of h)"
  by (induction h arbitrary: m) (simp_all add: devices_of_def split: option.splits)

lemma deviceMap_of_eq: "deviceMap_of h = foldl increment [] (devices_of h)"
  by (simp add: deviceMap_of_def deviceMap_loop)

lemma deviceMap_of_keys:
  "distinct (map fst (deviceMap_of h))" "fst ` set (deviceMap_of h) = set (devices_of h)"
  by (simp_all add: deviceMap_of_eq distinct_foldl_increment keys_foldl_increment)

lemma deviceMap_of_counts:
  assumes "(d, c) \<in> set (deviceMap_of h)"
  shows "c = count_list (devices_of h) d"
proof -
  from assms have "map_get (deviceMap_of h) d = Some c"
    by (simp add: map_get_Some_iff deviceMap_of_keys(1))
  then have "tally (deviceMap_of h) d = c" by (simp add: tally_def)
  moreover have "tally (deviceMap_of h) d = tally [] d + count_list (devices_of h) d"
    unfolding deviceMap_of_eq by (rule tally_foldl_increment)
  moreover have "tally [] d = 0" by (simp add: tally_def)
  ultimately show ?thesis by simp
qed

lemma devices_of_nonempty: "devices_of h \<noteq> [] \<Longrightarrow> h \<noteq> []"
  by (auto simp: devices_of_def)

lemma take_length_eq_iff: "take (length sub) xs = sub \<longleftrightarrow> (\<exists>q. xs = sub @ q)"
proof
  assume "take (length sub) xs = sub"
  then have "xs = sub @ drop (length sub) xs" by (metis append_take_drop_id)
  then show "\<exists>q. xs = sub @ q" ..
next
  assume "\<exists>q. xs = sub @ q"
  then show "take (length sub) xs = sub" by auto
qed

lemma includes_str_iff: "includes_str s sub \<longleftrightarrow> (\<exists>p q. s = p @ sub @ q)"
proof (induction s)
  case Nil
  then show ?case by auto
next
  case (Cons c cs)
  show ?case
  proof
    assume "includes_str (c # cs) sub"
    then consider "take (length sub) (c # cs) = sub" | "includes_str cs sub" by auto
    then show "\<exists>p q. c # cs = p @ sub @ q"
    proof cases
      case 1
      then obtain q where "c # cs = sub @ q" using take_length_eq_iff by metis
      then have "c # cs = [] @ sub @ q" by simp
      then show ?thesis by blast
    next
      case 2
      with Cons.IH obtain p q where "cs = p @ sub @ q" by blast
      then have "c # cs = (c # p) @ sub @ q" by simp
      then show ?thesis by blast
    qed
  next
    assume "\<exists>p q. c # cs = p @ sub @ q"
    then obtain p q where pq: "c # cs = p @ sub @ q" by blast
    show "includes_str (c # cs) sub"
    proof (cases p)
      case Nil
      with pq have "take (length sub) (c # cs) = sub" by (simp add: take_length_eq_iff)
      then show ?thesis by simp
    next
      case (Cons a p')
      with pq have "cs = p' @ sub @ q" by simp
      with Cons.IH have "includes_str cs sub" by blast
      then show ?thesis by simp
    qed
  qed
qed


lemma getDeviceStats_set:
  "set (getDeviceStats h) =
     (\<lambda>(d, c). \<lparr>device = d, count = c,
        percentage =
          (if 0 < length h
           then Math_round (double_mul (double_div (of_nat c) (of_nat (length h))) 100)
           else 0)\<rparr>)
       ` set (deviceMap_of h)"
  by (simp add: getDeviceStats_def Let_def)

lemma getDeviceStats_devices:
  "distinct (map device (getDeviceStats h))"
  "device ` set (getDeviceStats h) = set (devices_of h)"
proof -
  let ?mk = "\<lambda>(d, c). \<lparr>device = d, count = c,
        percentage =
          (if 0 < length h
           then Math_round (double_mul (double_div (of_nat c) (of_nat (length h))) 100)
           else 0)\<rparr>"
  let ?xs = "map ?mk (deviceMap_of h)"
  have key: "map device ?xs = map fst (deviceMap_of h)"
    by (simp add: case_prod_unfold comp_def)
  have r: "getDeviceStats h = sort_key (\<lambda>e. - int (count e)) ?xs"
    by (simp add: getDeviceStats_def Let_def)
  have "distinct (map device ?xs)"
    unfolding key by (rule deviceMap_of_keys(1))
  then have "distinct ?xs \<and> inj_on device (set ?xs)" by (simp only: distinct_map)
  then have "distinct (getDeviceStats h) \<and> inj_on device (set (getDeviceStats h))"
    unfolding r by simp
  then show "distinct (map device (getDeviceStats h))" by (simp only: distinct_map)
  have "device ` set (getDeviceStats h) = device ` set ?xs"
    unfolding r by (simp only: set_sort)
  also have "\<dots> = set (map device ?xs)" by (simp only: set_map)
  also have "\<dots> = fst ` set (deviceMap_of h)" unfolding key by (simp only: set_map)
  also have "\<dots> = set (devices_of h)" by (rule deviceMap_of_keys(2))
  finally show "device ` set (getDeviceStats h) = set (devices_of h)" .
qed

lemma getDeviceStats_entry:
  assumes "e \<in> set (getDeviceStats h)"
  shows "count e = count_list (devices_of h) (device e)"
    and "percentage e
           = Math_round (double_mul (double_div (of_nat (count e)) (of_nat (length h))) 100)"
proof -
  from assms obtain d c where dc: "(d, c) \<in> set (deviceMap_of h)"
    and e: "e = \<lparr>device = d, count = c,
        percentage =
          (if 0 < length h
           then Math_round (double_mul (double_div (of_nat c) (of_nat (length h))) 100)
           else 0)\<rparr>"
    unfolding getDeviceStats_set by auto
  from deviceMap_of_counts[OF dc] e
  show "count e = count_list (devices_of h) (device e)" by simp
  from dc have "d \<in> fst ` set (deviceMap_of h)" by force
  then have "devices_of h \<noteq> []" unfolding deviceMap_of_keys(2) by auto
  then have "0 < length h" using devices_of_nonempty by auto
  with e show "percentage e
           = Math_round (double_mul (double_div (of_nat (count e)) (of_nat (length h))) 100)"
    by simp
qed

lemma getDeviceStats_sorted:
  "sorted_wrt (\<lambda>a b. count b \<le> count a) (getDeviceStats h)"
proof -
  have "sorted (map (\<lambda>e. - int (count e)) (getDeviceStats h))"
    unfolding getDeviceStats_def Let_def by (rule sorted_sort_key)
  then show ?thesis by (simp add: sorted_map)
qed

lemma deviceOf_priority:
  "deviceOf ua =
     (if (\<exists>p q. toLowerCase ua = p @ ''mobile'' @ q) \<or> (\<exists>p q. toLowerCase ua = p @ ''android'' @ q)
          \<or> (\<exists>p q. toLowerCase ua = p @ ''iphone'' @ q) then ''Mobile''
      else if (\<exists>p q. toLowerCase ua = p @ ''tablet'' @ q) \<or> (\<exists>p q. toLowerCase ua = p @ ''ipad'' @ q)
      then ''Tablet''
      else if (\<exists>p q. toLowerCase ua = p @ ''bot'' @ q) \<or> (\<exists>p q. toLowerCase ua = p @ ''crawler'' @ q)
      then ''Bot''
      else ''Desktop'')"
  unfolding deviceOf_def Let_def includes_str_iff by (rule refl)

lemma binade_bounds_int:
  assumes "0 < p"
  shows "(2::rat) powi (bitlen p - 1) \<le> of_int p" and "of_int p < (2::rat) powi (bitlen p)"
proof -
  from bitlen_bounds[OF assms]
  have 1: "2 ^ nat (bitlen p - 1) \<le> p" and 2: "p < 2 ^ nat (bitlen p)"
    by simp_all
  have b: "0 < bitlen p"
  proof (rule ccontr)
    assume "\<not> 0 < bitlen p"
    then have "nat (bitlen p) = 0" by simp
    with 2 assms show False by simp
  qed
  from 1 have "(of_int (2 ^ nat (bitlen p - 1)) :: rat) \<le> of_int p" by (simp only: of_int_le_iff)
  with b show "(2::rat) powi (bitlen p - 1) \<le> of_int p" by (simp add: power_int_def)
  from 2 have "(of_int p :: rat) < of_int (2 ^ nat (bitlen p))" by (simp only: of_int_less_iff)
  with b show "of_int p < (2::rat) powi (bitlen p)" by (simp add: power_int_def)
qed

text \<open>\<open>binade\<close> finds the exponent of a positive number.\<close>

lemma binade_bracket:
  assumes "0 < x"
  shows "2 powi (binade x) \<le> x \<and> x < 2 powi (binade x + 1)"
proof -
  obtain p q where pq: "quotient_of x = (p, q)" by (cases "quotient_of x")
  then have q: "0 < q" by (rule quotient_of_denom_pos)
  from pq have x: "x = of_int p / of_int q" by (rule quotient_of_div)
  with assms q have p: "0 < p" by (simp add: zero_less_divide_iff)
  let ?d = "bitlen p - bitlen q"
  note P = binade_bounds_int[OF p] and Q = binade_bounds_int[OF q]
  have qpos: "(0::rat) < of_int q" using q by simp
  have pw: "(0::rat) < 2 powi k" for k by simp
  have up: "x < 2 powi (?d + 1)"
  proof -
    have "x < 2 powi (bitlen p) / of_int q"
      unfolding x using P(2) qpos by (simp add: divide_strict_right_mono)
    also have "\<dots> \<le> 2 powi (bitlen p) / 2 powi (bitlen q - 1)"
      using Q(1) pw[of "bitlen q - 1"] pw[of "bitlen p"] by (simp add: frac_le)
    also have "\<dots> = 2 powi (bitlen p - (bitlen q - 1))"
      by (simp add: power_int_diff)
    finally show ?thesis by (simp add: algebra_simps)
  qed
  have lo: "2 powi (?d - 1) \<le> x"
  proof -
    have "(2::rat) powi (?d - 1) = 2 powi (bitlen p - 1) / 2 powi (bitlen q)"
      by (simp add: power_int_diff[symmetric] algebra_simps)
    also have "\<dots> \<le> of_int p / 2 powi (bitlen q)"
      using P(1) pw[of "bitlen q"] by (simp add: divide_right_mono)
    also have "\<dots> \<le> of_int p / of_int q"
      using Q(2) qpos p by (simp add: frac_le)
    finally show ?thesis unfolding x .
  qed
  show ?thesis
  proof (cases "2 powi ?d \<le> x")
    case True
    with pq up show ?thesis by (simp add: binade_def)
  next
    case False
    with pq lo show ?thesis by (simp add: binade_def)
  qed
qed

text \<open>\<open>roundTiesToEven\<close> returns a nearest integer, and the even one at a tie.\<close>

lemma roundTiesToEven_nearest:
  "\<bar>of_int (roundTiesToEven m) - m\<bar> \<le> 1 / 2"
  "\<bar>of_int (roundTiesToEven m) - m\<bar> = 1 / 2 \<Longrightarrow> even (roundTiesToEven m)"
proof -
  let ?f = "\<lfloor>m\<rfloor>"
  let ?r = "m - of_int ?f"
  have lo: "0 \<le> ?r" and hi: "?r < 1" by linarith+
  consider (below) "?r < 1 / 2" | (above) "1 / 2 < ?r" | (tie) "?r = 1 / 2" by linarith
  then have "\<bar>of_int (roundTiesToEven m) - m\<bar> \<le> 1 / 2
      \<and> (\<bar>of_int (roundTiesToEven m) - m\<bar> = 1 / 2 \<longrightarrow> even (roundTiesToEven m))"
  proof cases
    case below
    then have "roundTiesToEven m = ?f" by (simp add: roundTiesToEven_def Let_def)
    with below lo show ?thesis by simp
  next
    case above
    then have "roundTiesToEven m = ?f + 1" by (simp add: roundTiesToEven_def Let_def)
    with above hi show ?thesis by simp
  next
    case tie
    show ?thesis
    proof (cases "even ?f")
      case True
      with tie have "roundTiesToEven m = ?f" by (simp add: roundTiesToEven_def Let_def)
      with tie True show ?thesis by simp
    next
      case False
      with tie have "roundTiesToEven m = ?f + 1" by (simp add: roundTiesToEven_def Let_def)
      with tie False show ?thesis by simp
    qed
  qed
  then show "\<bar>of_int (roundTiesToEven m) - m\<bar> \<le> 1 / 2"
    and "\<bar>of_int (roundTiesToEven m) - m\<bar> = 1 / 2 \<Longrightarrow> even (roundTiesToEven m)"
    by blast+
qed

text \<open>
  Percentages as the code computes them: 23 of 40 is 57 (the product is
  57.49999999999999, where the exact value is 57.5), 29 of 200 is 14, 1 of 8 is 13.
\<close>

lemma double_percentages:
  "Math_round (double_mul (double_div 23 40) 100) = 57
   \<and> Math_round (double_mul (double_div 29 200) 100) = 14
   \<and> Math_round (double_mul (double_div 1 8) 100) = 13
   \<and> Math_round (double_mul (double_div 1 3) 100) = 33
   \<and> Math_round (23 / 40 * 100) = 58"
  by code_simp

text \<open>
  C3, as the code has it. \<open>getDeviceStats\<close> lists each device class that occurs among the
  scans with a (non-empty) user agent exactly once; the class of a user agent is decided
  on its lower-cased form by substring tests in the order Mobile (mobile, android,
  iphone), Tablet (tablet, ipad), Bot (bot, crawler), else Desktop; an entry's count is
  the number of such scans of its class; the entries are in descending order of count;
  and an entry's percentage is \<^verbatim>\<open>Math.round((count / total) * 100)\<close> in the arithmetic
  of JavaScript numbers, where \<open>total\<close> is the number of all scans of the history,
  those without a user agent included.
\<close>

theorem device_stats_over_all_scans:
  "distinct (map device (getDeviceStats h))
   \<and> device ` set (getDeviceStats h) = set (devices_of h)
   \<and> (\<forall>e \<in> set (getDeviceStats h).
         count e = count_list (devices_of h) (device e)
       \<and> percentage e
           = Math_round (double_mul (double_div (of_nat (count e)) (of_nat (length h))) 100))
   \<and> sorted_wrt (\<lambda>a b. count b \<le> count a) (getDeviceStats h)
   \<and> (\<forall>ua. deviceOf ua =
        (if (\<exists>p q. toLowerCase ua = p @ ''mobile'' @ q)
            \<or> (\<exists>p q. toLowerCase ua = p @ ''android'' @ q)
            \<or> (\<exists>p q. toLowerCase ua = p @ ''iphone'' @ q) then ''Mobile''
         else if (\<exists>p q. toLowerCase ua = p @ ''tablet'' @ q)
            \<or> (\<exists>p q. toLowerCase ua = p @ ''ipad'' @ q) then ''Tablet''
         else if (\<exists>p q. toLowerCase ua = p @ ''bot'' @ q)
            \<or> (\<exists>p q. toLowerCase ua = p @ ''crawler'' @ q) then ''Bot''
         else ''Desktop''))"
  using getDeviceStats_devices[of h] getDeviceStats_entry[of _ h] getDeviceStats_sorted[of h]
    deviceOf_priority
  by blast

text \<open>Four scans, one of them without a user agent; and forty scans, 23 from an iPhone
  and 17 without a user agent: Mobile at 57 percent.\<close>

theorem device_stats_over_all_scans_witness:
  "getDeviceStats [scan0 (Some ''Mozilla/5.0 (iPhone)''), scan0 (Some ''Googlebot/2.1''),
                   scan0 None, scan0 (Some ''Mozilla/5.0 (Linux; Android 14) Mobile'')]
     = [\<lparr>device = ''Mobile'', count = 2, percentage = 50\<rparr>,
        \<lparr>device = ''Bot'', count = 1, percentage = 25\<rparr>]
   \<and> getDeviceStats (replicate 23 (scan0 (Some ''Mozilla/5.0 (iPhone)'')) @ replicate 17 (scan0 None))
     = [\<lparr>device = ''Mobile'', count = 23, percentage = 57\<rparr>]
   \<and> percentage \<lparr>device = ''Mobile'', count = 23, percentage = 57\<rparr>
       = Math_round (double_mul (double_div (of_nat 23) (of_nat 40)) 100)"
proof -
  let ?h = "replicate 23 (scan0 (Some ''Mozilla/5.0 (iPhone)'')) @ replicate 17 (scan0 None)"
  have u: "getDeviceStats [scan0 (Some ''Mozilla/5.0 (iPhone)''), scan0 (Some ''Googlebot/2.1''),
                   scan0 None, scan0 (Some ''Mozilla/5.0 (Linux; Android 14) Mobile'')]
     = [\<lparr>device = ''Mobile'', count = 2, percentage = 50\<rparr>,
        \<lparr>device = ''Bot'', count = 1, percentage = 25\<rparr>]"
    by code_simp
  have v: "getDeviceStats ?h = [\<lparr>device = ''Mobile'', count = 23, percentage = 57\<rparr>]"
    by code_simp
  then have m: "\<lparr>device = ''Mobile'', count = 23, percentage = 57\<rparr> \<in> set (getDeviceStats ?h)"
    by simp
  have l: "length ?h = 40" by simp
  from device_stats_over_all_scans[of ?h] m
  have "percentage \<lparr>device = ''Mobile'', count = 23, percentage = 57\<rparr>
       = Math_round (double_mul
           (double_div (of_nat (count \<lparr>device = ''Mobile'', count = 23, percentage = 57\<rparr>))
              (of_nat (length ?h))) 100)"
    by blast
  then have w: "percentage \<lparr>device = ''Mobile'', count = 23, percentage = 57\<rparr>
       = Math_round (double_mul (double_div (of_nat 23) (of_nat 40)) 100)"
    unfolding l by simp
  from u v w show ?thesis by blast
qed

text \<open>
  C3, as the claim has it, fails: of two scans, one from an iPhone and one without a
  user agent, the code reports Mobile at 50 percent, where the denominator of the
  classified scans alone gives 100 percent.
\<close>

theorem device_percentage_counterexample:
  "getDeviceStats [scan0 (Some ''Mozilla/5.0 (iPhone)''), scan0 None]
     = [\<lparr>device = ''Mobile'', count = 1, percentage = 50\<rparr>]
   \<and> deviceBreakdown_spec [scan0 (Some ''Mozilla/5.0 (iPhone)''), scan0 None]
     = [\<lparr>device = ''Mobile'', count = 1, percentage = 100\<rparr>]"
  by code_simp

section \<open>Daily scans\<close>

lemma sum_list_insort_key:
  "sum_list (map f (insort_key g x xs)) = f x + (sum_list (map f xs) :: nat)"
  by (induction xs) auto

lemma sum_list_sort_key:
  "sum_list (map f (sort_key g xs)) = (sum_list (map f xs) :: nat)"
  by (induction xs) (simp_all add: sum_list_insort_key)

lemma sum_map_set:
  "sum_list (map snd (map_set m k v)) + tally m k = sum_list (map snd m) + v"
  by (induction m) (auto simp: tally_def)

lemma sum_increment: "sum_list (map snd (increment m k)) = sum_list (map snd m) + 1"
  using sum_map_set[of m k "tally m k + 1"] by (simp add: increment_eq)

lemma sum_foldl_increment:
  "sum_list (map snd (foldl increment m ks)) = sum_list (map snd m) + length ks"
  by (induction ks arbitrary: m) (simp_all add: sum_increment)

lemma sum_foldl_map_set_zero:
  "sum_list (map snd m) = 0 \<Longrightarrow>
   sum_list (map snd (foldl (\<lambda>m i. map_set m (f i) (0::nat)) m is)) = 0"
proof (induction "is" arbitrary: m)
  case Nil
  then show ?case by simp
next
  case (Cons i "is")
  from sum_map_set[of m "f i" 0] Cons.prems
  have "sum_list (map snd (map_set m (f i) 0)) = 0" by simp
  from Cons.IH[OF this] show ?case by simp
qed

lemma foldl_increment_map:
  "foldl (\<lambda>m x. increment m (f x)) m xs = foldl increment m (map f xs)"
  by (induction xs arbitrary: m) simp_all

lemma daily_scans_sum_sorted:
  "sum_list (map scans (getDailyScans now h))
     = length (filter (\<lambda>scan. daysBefore now 30 \<le> timestamp scan) h)"
  "sorted (map date (getDailyScans now h))"
proof -
  let ?init = "foldl (\<lambda>m i. map_set m (isoDate (daysBefore now i)) (0::nat)) [] [0..<30]"
  let ?w = "filter (\<lambda>scan. daysBefore now 30 \<le> timestamp scan) h"
  let ?m = "foldl (\<lambda>m scan. increment m (isoDate (timestamp scan))) ?init ?w"
  have r: "getDailyScans now h = sort_key date (map (\<lambda>(d, n). \<lparr>date = d, scans = n\<rparr>) ?m)"
    by (simp add: getDailyScans_def Let_def)
  have "sum_list (map snd ?init) = 0"
    using sum_foldl_map_set_zero[of "[]" "\<lambda>i. isoDate (daysBefore now i)" "[0..<30]"] by simp
  moreover have e: "?m = foldl increment ?init (map (\<lambda>scan. isoDate (timestamp scan)) ?w)"
    by (rule foldl_increment_map)
  moreover have "sum_list (map snd (foldl increment ?init (map (\<lambda>scan. isoDate (timestamp scan)) ?w)))
      = sum_list (map snd ?init) + length (map (\<lambda>scan. isoDate (timestamp scan)) ?w)"
    by (rule sum_foldl_increment)
  ultimately have "sum_list (map snd ?m) = length ?w"
    by (simp only: length_map add_0)
  moreover have "map scans (map (\<lambda>(d, n). \<lparr>date = d, scans = n\<rparr>) ?m) = map snd ?m"
    by (simp add: case_prod_unfold comp_def)
  ultimately show "sum_list (map scans (getDailyScans now h)) = length ?w"
    unfolding r by (simp only: sum_list_sort_key)
  show "sorted (map date (getDailyScans now h))"
    unfolding r by (rule sorted_sort_key)
qed

text \<open>
  C4. The window starts 30 days of 24 hours before now, but the buckets set up in
  advance are the 30 calendar days that end today. A scan taken 30 days ago, later in
  the day than now, lies in the window and on the calendar day before the first bucket:
  it gets a bucket of its own, the 31st. Here now is 2026-11-03 10:00 UTC and the scan
  was taken on 2026-10-04 at 15:00 UTC (day 20730 since 1970-01-01). The rest holds, as
  \<open>daily_scans_sum_sorted\<close> shows: the counts add up to the number of scans in the
  window, and the dates ascend.
\<close>

theorem daily_scans_thirty_one_buckets:
  "length (getDailyScans 1793700000000 [scan0 None]) = 31
   \<and> hd (getDailyScans 1793700000000 [scan0 None]) = \<lparr>date = 20730, scans = 1\<rparr>
   \<and> last (getDailyScans 1793700000000 [scan0 None]) = \<lparr>date = 20760, scans = 0\<rparr>"
  by code_simp

end
